theory Spec2Isabelle
  imports Main
begin

section \<open>JavaScript strings\<close>

text \<open>
  Strings are lists of 8-bit characters and are read as ASCII text.
  \<open>String.prototype.toLowerCase\<close> maps \<open>A\<close>..\<open>Z\<close> to \<open>a\<close>..\<open>z\<close> and leaves every other
  ASCII character alone; characters beyond ASCII are left alone here as well.
\<close>

definition toLowerCase_char :: "char \<Rightarrow> char" where
  "toLowerCase_char c =
     (case map_of (zip ''ABCDEFGHIJKLMNOPQRSTUVWXYZ'' ''abcdefghijklmnopqrstuvwxyz'') c of
        Some l \<Rightarrow> l
      | None \<Rightarrow> c)"

definition toLowerCase :: "string \<Rightarrow> string" where
  "toLowerCase s = map toLowerCase_char s"

text \<open>\<open>s.startsWith(k)\<close> and \<open>s.includes(k)\<close>: \<open>k\<close> occurs in \<open>s\<close> as a contiguous run.\<close>

fun startsWith :: "string \<Rightarrow> string \<Rightarrow> bool" where
  "startsWith s [] = True"
| "startsWith [] (k # ks) = False"
| "startsWith (c # s) (k # ks) = (c = k \<and> startsWith s ks)"

fun includes_str :: "string \<Rightarrow> string \<Rightarrow> bool" where
  "includes_str [] k = (k = [])"
| "includes_str (c # s) k = (startsWith (c # s) k \<or> includes_str s k)"

text \<open>
  \<open>s.indexOf(c)\<close> and \<open>s.lastIndexOf(c)\<close> for a one-character pattern; \<open>None\<close> is the
  result \<open>-1\<close>.  \<open>s.slice(a, b)\<close> for \<open>0 \<le> a\<close> and \<open>0 \<le> b\<close>.
\<close>

fun indexOf :: "string \<Rightarrow> char \<Rightarrow> nat option" where
  "indexOf [] c = None"
| "indexOf (x # xs) c = (if x = c then Some 0 else map_option Suc (indexOf xs c))"

definition lastIndexOf :: "string \<Rightarrow> char \<Rightarrow> nat option" where
  "lastIndexOf s c = map_option (\<lambda>i. length s - 1 - i) (indexOf (rev s) c)"

definition slice :: "'a list \<Rightarrow> nat \<Rightarrow> nat \<Rightarrow> 'a list" where
  "slice s a b = take (b - a) (drop a s)"

text \<open>\<open>xs.slice(-n)\<close>: the last \<open>n\<close> elements.\<close>

definition slice_last :: "nat \<Rightarrow> 'a list \<Rightarrow> 'a list" where
  "slice_last n xs = drop (length xs - n) xs"


section \<open>JSON.parse\<close>

text \<open>
  \<open>JSON.parse\<close> is a builtin of the language, not code of the repository.  The service
  functions below take the parser as a parameter, and every general theorem holds for any
  parser.  For evaluating the service on concrete response texts, \<open>JSON_parse\<close> implements
  the JSON grammar (ECMA-404): it returns the syntax tree of the text, or \<open>None\<close> where
  \<open>JSON.parse\<close> throws a \<open>SyntaxError\<close>.  Numbers and strings are kept as their source
  text (a number's IEEE value and a string's escapes are not decoded).
\<close>

datatype json =
    JNull
  | JBool bool
  | JNumber string
  | JString string
  | JArray "json list"
  | JObject "(string \<times> json) list"

definition is_ws :: "char \<Rightarrow> bool" where
  "is_ws c = (c \<in> set [CHR '' '', CHR 0x09, CHR 0x0A, CHR 0x0D])"

definition skip_ws :: "string \<Rightarrow> string" where
  "skip_ws s = dropWhile is_ws s"

definition is_digit :: "char \<Rightarrow> bool" where
  "is_digit c = (c \<in> set ''0123456789'')"

definition is_hex :: "char \<Rightarrow> bool" where
  "is_hex c = (c \<in> set ''0123456789abcdefABCDEF'')"

text \<open>A number token: \<open>-? (0 | [1-9][0-9]*) (. [0-9]+)? ([eE] [+-]? [0-9]+)?\<close>.\<close>

definition lex_int :: "string \<Rightarrow> (string \<times> string) option" where
  "lex_int s =
     (case s of
        [] \<Rightarrow> None
      | c # r \<Rightarrow>
          if c = CHR ''0'' then Some ([c], r)
          else if is_digit c then Some (c # takeWhile is_digit r, dropWhile is_digit r)
          else None)"

definition lex_frac :: "string \<Rightarrow> (string \<times> string) option" where
  "lex_frac s =
     (case s of
        [] \<Rightarrow> Some ([], s)
      | c # r \<Rightarrow>
          if c = CHR ''.'' then
            (if takeWhile is_digit r = [] then None
             else Some (c # takeWhile is_digit r, dropWhile is_digit r))
          else Some ([], s))"

definition lex_sign :: "string \<Rightarrow> string \<times> string" where
  "lex_sign s =
     (case s of
        [] \<Rightarrow> ([], s)
      | c # r \<Rightarrow> if c = CHR ''+'' \<or> c = CHR ''-'' then ([c], r) else ([], s))"

definition lex_exp :: "string \<Rightarrow> (string \<times> string) option" where
  "lex_exp s =
     (case s of
        [] \<Rightarrow> Some ([], s)
      | c # r \<Rightarrow>
          if c = CHR ''e'' \<or> c = CHR ''E'' then
            (let (sg, r') = lex_sign r in
             if takeWhile is_digit r' = [] then None
             else Some (c # sg @ takeWhile is_digit r', dropWhile is_digit r'))
          else Some ([], s))"

definition lex_number :: "string \<Rightarrow> (string \<times> string) option" where
  "lex_number s =
     (let (minus, r0) = (case s of [] \<Rightarrow> ([], s)
                         | c # r \<Rightarrow> if c = CHR ''-'' then ([c], r) else ([], s))
      in case lex_int r0 of
           None \<Rightarrow> None
         | Some (i, r1) \<Rightarrow>
             (case lex_frac r1 of
                None \<Rightarrow> None
              | Some (f, r2) \<Rightarrow>
                  (case lex_exp r2 of
                     None \<Rightarrow> None
                   | Some (e, r3) \<Rightarrow> Some (minus @ i @ f @ e, r3))))"

text \<open>
  A string token, read after its opening quote: up to the closing quote, with the
  escapes \<open>\" \\ \/ \b \f \n \r \t \uXXXX\<close> and no raw control character.
\<close>

fun lex_string :: "string \<Rightarrow> (string \<times> string) option" where
  "lex_string [] = None"
| "lex_string (c # s) =
     (if c = CHR 0x22 then Some ([], s)
      else if c = CHR 0x5C then
        (case s of
           [] \<Rightarrow> None
         | e # s' \<Rightarrow>
             if e \<in> set [CHR 0x22, CHR 0x5C, CHR ''/'', CHR ''b'', CHR ''f'', CHR ''n'', CHR ''r'', CHR ''t'']
             then map_option (\<lambda>(t, r). (c # e # t, r)) (lex_string s')
             else if e = CHR ''u'' \<and> length s' \<ge> 4 \<and> list_all is_hex (take 4 s')
             then map_option (\<lambda>(t, r). (c # e # take 4 s' @ t, r)) (lex_string (drop 4 s'))
             else None)
      else if (of_char c :: nat) < 32 then None
      else map_option (\<lambda>(t, r). (c # t, r)) (lex_string s))"

text \<open>
  Values, the elements of a non-empty array and the members of a non-empty object.  The
  first argument bounds the number of nested calls; a call is made only after a character
  of the text has been read or on the way into a value, so twice the length of the text
  is never exhausted.
\<close>

definition expect :: "char \<Rightarrow> string \<Rightarrow> string option" where
  "expect c s = (case s of [] \<Rightarrow> None | x # r \<Rightarrow> if x = c then Some r else None)"

fun parse_value :: "nat \<Rightarrow> string \<Rightarrow> (json \<times> string) option"
  and parse_elements :: "nat \<Rightarrow> string \<Rightarrow> (json list \<times> string) option"
  and parse_members :: "nat \<Rightarrow> string \<Rightarrow> ((string \<times> json) list \<times> string) option"
where
  "parse_value 0 s = None"
| "parse_value (Suc n) s =
     (case s of
        [] \<Rightarrow> None
      | c # r \<Rightarrow>
          if c = CHR ''{'' then
            (case expect CHR ''}'' (skip_ws r) of
               Some r' \<Rightarrow> Some (JObject [], r')
             | None \<Rightarrow> map_option (\<lambda>(ms, r'). (JObject ms, r')) (parse_members n (skip_ws r)))
          else if c = CHR ''['' then
            (case expect CHR '']'' (skip_ws r) of
               Some r' \<Rightarrow> Some (JArray [], r')
             | None \<Rightarrow> map_option (\<lambda>(vs, r'). (JArray vs, r')) (parse_elements n (skip_ws r)))
          else if c = CHR 0x22 then map_option (\<lambda>(t, r'). (JString t, r')) (lex_string r)
          else if c = CHR ''-'' \<or> is_digit c then
            map_option (\<lambda>(t, r'). (JNumber t, r')) (lex_number s)
          else if startsWith s ''true'' then Some (JBool True, drop 4 s)
          else if startsWith s ''false'' then Some (JBool False, drop 5 s)
          else if startsWith s ''null'' then Some (JNull, drop 4 s)
          else None)"
| "parse_elements 0 s = None"
| "parse_elements (Suc n) s =
     (case parse_value n s of
        None \<Rightarrow> None
      | Some (v, r) \<Rightarrow>
          (case expect CHR '','' (skip_ws r) of
             Some r' \<Rightarrow> map_option (\<lambda>(vs, r''). (v # vs, r'')) (parse_elements n (skip_ws r'))
           | None \<Rightarrow> map_option (\<lambda>r'. ([v], r')) (expect CHR '']'' (skip_ws r))))"
| "parse_members 0 s = None"
| "parse_members (Suc n) s =
     (case expect CHR 0x22 s of
        None \<Rightarrow> None
      | Some r \<Rightarrow>
          (case lex_string r of
             None \<Rightarrow> None
           | Some (k, r1) \<Rightarrow>
               (case expect CHR '':'' (skip_ws r1) of
                  None \<Rightarrow> None
                | Some r2 \<Rightarrow>
                    (case parse_value n (skip_ws r2) of
                       None \<Rightarrow> None
                     | Some (v, r3) \<Rightarrow>
                         (case expect CHR '','' (skip_ws r3) of
                            Some r4 \<Rightarrow>
                              map_option (\<lambda>(ms, r'). ((k, v) # ms, r'))
                                (parse_members n (skip_ws r4))
                          | None \<Rightarrow>
                              map_option (\<lambda>r'. ([(k, v)], r'))
                                (expect CHR ''}'' (skip_ws r3)))))))"

definition JSON_parse :: "string \<Rightarrow> json option" where
  "JSON_parse s =
     (case parse_value (2 * length s + 2) (skip_ws s) of
        None \<Rightarrow> None
      | Some (v, r) \<Rightarrow> if skip_ws r = [] then Some v else None)"


section \<open>The AI service (server/services/aiService.js)\<close>

subsection \<open>Data\<close>

datatype severity = Mild | Moderate | Severe

text \<open>
  A reported symptom.  \<open>name\<close> and \<open>severity\<close> may be absent (\<open>None\<close>; the code reads
  \<open>s.name || ''\<close> and \<open>s.severity || 'mild'\<close>).  The route admits only the three severity
  values, which the type expresses.  \<open>duration\<close> and \<open>description\<close> are used only in the
  prompt text.
\<close>

record symptom =
  name :: "string option"
  severity :: "severity option"

record user_context =
  age :: "nat option"
  gender :: "string option"
  existingConditions :: "string list"
  medications :: "string list"
  allergies :: "string list"

datatype level = Low | Medium | High | Critical

datatype recommendation_type = Lifestyle | Medication | Consultation | Emergency | Monitoring

datatype priority = Priority_low | Priority_medium | Priority_high | Priority_urgent

record possible_condition =
  condition :: string
  probability :: int
  confidence :: int
  description :: string
  symptoms :: "string list"
  riskLevel :: level

record recommendation =
  rec_type :: recommendation_type
  title :: string
  rec_description :: string
  rec_priority :: priority
  timeframe :: string

record follow_up =
  followUp_timeframe :: string
  actions :: "string list"

record assessment =
  possibleConditions :: "possible_condition list"
  recommendations :: "recommendation list"
  generalAdvice :: string
  whenToSeekHelp :: string
  followUp :: follow_up

subsection \<open>parseFallbackResponse\<close>

definition parseFallbackResponse :: "string \<Rightarrow> assessment" where
  "parseFallbackResponse response =
     \<lparr> possibleConditions =
         [\<lparr> condition = ''General symptoms'',
            probability = 50,
            confidence = 60,
            description = ''Based on the symptoms provided'',
            symptoms = [''Various symptoms''],
            riskLevel = Medium \<rparr>],
       recommendations =
         [\<lparr> rec_type = Consultation,
            title = ''Consult Healthcare Provider'',
            rec_description = ''Schedule an appointment with your doctor to discuss these symptoms'',
            rec_priority = Priority_medium,
            timeframe = ''Within a week'' \<rparr>],
       generalAdvice =
         (if response = [] then ''Please consult with a healthcare professional for proper evaluation.''
          else response),
       whenToSeekHelp = ''If symptoms persist or worsen, seek medical attention promptly.'',
       followUp =
         \<lparr> followUp_timeframe = ''1-2 weeks'',
           actions = [''Monitor symptoms'', ''Schedule doctor appointment''] \<rparr> \<rparr>"

subsection \<open>ruleBasedAssessment\<close>

definition severityScore :: "severity option \<Rightarrow> int" where
  "severityScore s =
     (case s of
        None \<Rightarrow> 1
      | Some Mild \<Rightarrow> 1
      | Some Moderate \<Rightarrow> 2
      | Some Severe \<Rightarrow> 3)"

text \<open>The two \<open>reduce\<close> calls, left to right from their initial values \<open>0\<close> and \<open>1\<close>.\<close>

definition totalSeverity :: "symptom list \<Rightarrow> int" where
  "totalSeverity syms = foldl (\<lambda>sum s. sum + severityScore (severity s)) 0 syms"

definition maxSeverity :: "symptom list \<Rightarrow> int" where
  "maxSeverity syms = foldl (\<lambda>mx s. max mx (severityScore (severity s))) 1 syms"

definition names :: "symptom list \<Rightarrow> string list" where
  "names syms = map (\<lambda>s. toLowerCase (case name s of None \<Rightarrow> [] | Some n \<Rightarrow> n)) syms"

record rule =
  match :: "string list"
  rule_condition :: string
  riskBase :: int

definition rules :: "rule list" where
  "rules =
     [\<lparr> match = [''fever'', ''cough''], rule_condition = ''Viral respiratory infection'', riskBase = 30 \<rparr>,
      \<lparr> match = [''headache'', ''nausea''], rule_condition = ''Migraine'', riskBase = 25 \<rparr>,
      \<lparr> match = [''chest pain''], rule_condition = ''Cardiac or musculoskeletal cause'', riskBase = 50 \<rparr>,
      \<lparr> match = [''fatigue''], rule_condition = ''Fatigue (multifactorial)'', riskBase = 20 \<rparr>,
      \<lparr> match = [''abdominal pain''], rule_condition = ''Gastrointestinal upset'', riskBase = 30 \<rparr>,
      \<lparr> match = [''shortness of breath''], rule_condition = ''Respiratory issue'', riskBase = 40 \<rparr>]"

definition matched :: "symptom list \<Rightarrow> rule list" where
  "matched syms = filter (\<lambda>r. list_ex (\<lambda>m. m \<in> set (names syms)) (match r)) rules"

definition baseConditions :: "symptom list \<Rightarrow> rule list" where
  "baseConditions syms =
     (if matched syms \<noteq> [] then matched syms
      else [\<lparr> match = [], rule_condition = ''Non-specific presentation'', riskBase = 15 \<rparr>])"

text \<open>The callback of \<open>baseConditions.slice(0, 3).map((r, idx) => ...)\<close>.\<close>

definition toCondition :: "symptom list \<Rightarrow> nat \<times> rule \<Rightarrow> possible_condition" where
  "toCondition syms p =
     (let idx = int (fst p); r = snd p;
          probability = min 90 (riskBase r + maxSeverity syms * 10 + idx * 5);
          confidence = min 90 (40 + totalSeverity syms * 8 - idx * 5);
          riskLevel = (if probability \<ge> 70 then High else if probability \<ge> 45 then Medium else Low)
      in \<lparr> condition = rule_condition r,
           probability = probability,
           confidence = confidence,
           description = ''Estimated from reported symptoms using heuristic rules.'',
           symptoms = names syms,
           riskLevel = riskLevel \<rparr>)"

definition ruleBasedAssessment :: "symptom list \<Rightarrow> user_context \<Rightarrow> assessment" where
  "ruleBasedAssessment syms userContext =
     (let possibleConditions = map (toCondition syms) (enumerate 0 (take 3 (baseConditions syms)));
          emergency =
            (if maxSeverity syms \<ge> 3 \<or> ''chest pain'' \<in> set (names syms)
                \<or> ''shortness of breath'' \<in> set (names syms)
             then [\<lparr> rec_type = Emergency,
                     title = ''Seek urgent medical care if symptoms are severe'',
                     rec_description = ''If chest pain, severe shortness of breath, fainting, or confusion occur, seek immediate medical attention.'',
                     rec_priority = Priority_urgent,
                     timeframe = ''Immediately'' \<rparr>]
             else []);
          recommendations = emergency @
            [\<lparr> rec_type = Consultation,
               title = ''Consult a healthcare professional'',
               rec_description = ''Discuss these symptoms with your healthcare provider for appropriate evaluation.'',
               rec_priority = (if maxSeverity syms \<ge> 2 then Priority_high else Priority_medium),
               timeframe = (if maxSeverity syms \<ge> 2 then ''Within 1-3 days'' else ''Within 1-2 weeks'') \<rparr>,
             \<lparr> rec_type = Lifestyle,
               title = ''Supportive care'',
               rec_description = ''Hydration, balanced diet, rest, and monitoring of symptom changes.'',
               rec_priority = Priority_medium,
               timeframe = ''Ongoing'' \<rparr>]
      in \<lparr> possibleConditions = possibleConditions,
           recommendations = recommendations,
           generalAdvice = ''This is educational guidance only and not a diagnosis. Monitor symptom changes and seek professional care as appropriate.'',
           whenToSeekHelp = ''If symptoms worsen, new severe symptoms develop, or you are concerned, seek medical attention promptly.'',
           followUp =
             \<lparr> followUp_timeframe = ''1-2 weeks'',
               actions = [''Monitor symptoms daily'', ''Track temperature and severity'',
                          ''Consult provider if persistent''] \<rparr> \<rparr>)"

subsection \<open>validateResponse\<close>

record validation =
  isValid :: bool
  sanitizedResponse :: string

definition dangerousKeywords :: "string list" where
  "dangerousKeywords =
     [''self-diagnose'', ''self-treat'', ''ignore symptoms'', ''delay treatment'',
      ''alternative medicine only'', ''avoid doctors'', ''natural cure'']"

definition safeRedirect :: string where
  "safeRedirect = ''I recommend consulting with a healthcare professional for proper evaluation of your symptoms.''"

text \<open>The argument is a string, so the test \<open>typeof response === 'string'\<close> holds.\<close>

definition validateResponse :: "string \<Rightarrow> validation" where
  "validateResponse response =
     (let hasDangerousContent =
            list_ex (\<lambda>keyword. includes_str (toLowerCase response) keyword) dangerousKeywords
      in if hasDangerousContent then \<lparr> isValid = False, sanitizedResponse = safeRedirect \<rparr>
         else \<lparr> isValid = True, sanitizedResponse = response \<rparr>)"

subsection \<open>The model provider\<close>

text \<open>
  The outcome of \<open>groq.chat.completions.create\<close>: the call throws (network, timeout or
  provider error, or a result that cannot be read), or it resolves with a completion whose
  \<open>choices?.[0]?.message?.content\<close> is a string or is missing.  The prompt the service
  builds decides nothing but which outcome the provider produces, so the outcome is an
  input of the model and the prompt text is left out.
\<close>

datatype completion = Throws | Resolves "string option"

text \<open>\<open>completion.choices?.[0]?.message?.content || ''\<close>\<close>

definition content_or_empty :: "string option \<Rightarrow> string" where
  "content_or_empty c = (case c of None \<Rightarrow> [] | Some t \<Rightarrow> t)"

subsection \<open>analyzeSymptoms\<close>

text \<open>
  The function returns either what \<open>JSON.parse\<close> produced, as it is, or an assessment
  object it built itself.  \<open>apiKey\<close> is \<open>process.env.GROQ_API_KEY\<close>: absent or an empty
  string counts as no credential.
\<close>

datatype 'j analysis = Parsed 'j | Built assessment

definition analyzeSymptoms ::
  "(string \<Rightarrow> 'j option) \<Rightarrow> string option \<Rightarrow> completion \<Rightarrow> symptom list \<Rightarrow> user_context \<Rightarrow> 'j analysis"
where
  "analyzeSymptoms parse apiKey outcome syms userContext =
     (if apiKey = None \<or> apiKey = Some [] then Built (ruleBasedAssessment syms userContext)
      else
        (case outcome of
           Throws \<Rightarrow> Built (ruleBasedAssessment syms userContext)
         | Resolves c \<Rightarrow>
             (let response = content_or_empty c in
              case parse response of
                Some v \<Rightarrow> Parsed v
              | None \<Rightarrow>
                  (case (indexOf response CHR ''{'', lastIndexOf response CHR ''}'') of
                     (Some firstBrace, Some lastBrace) \<Rightarrow>
                       if lastBrace > firstBrace then
                         (case parse (slice response firstBrace (lastBrace + 1)) of
                            Some v \<Rightarrow> Parsed v
                          | None \<Rightarrow> Built (parseFallbackResponse response))
                       else Built (parseFallbackResponse response)
                   | _ \<Rightarrow> Built (parseFallbackResponse response)))))"

subsection \<open>analyzeSymptoms on the values of a request body\<close>

text \<open>
  The symptoms arrive in a JSON body, so \<open>s.name\<close> need not be a string.
  \<open>(s.name || '')\<close> is the empty string for a falsy value (missing, \<open>null\<close>, \<open>''\<close>, \<open>0\<close>,
  \<open>false\<close>) and the value itself otherwise, and \<open>.toLowerCase()\<close> exists on a string only:
  for a truthy value that is not a string (a number such as \<open>123\<close>, \<open>true\<close>, an array, an
  object) the \<open>map\<close> in \<open>ruleBasedAssessment\<close> throws a \<open>TypeError\<close>.  The route's
  \<open>notEmpty()\<close> admits such a name.  Nothing before that line throws, and nothing else
  in \<open>analyzeSymptoms\<close> calls a method on a name.
\<close>

datatype name_value = Falsy_value | String_value string | Other_value

record sent_symptom =
  sent_name :: name_value
  sent_severity :: "severity option"

text \<open>What a call may throw: the \<open>TypeError\<close> above, or the provider's error.\<close>

datatype thrown = TypeError | ProviderError

text \<open>The symptoms with their names as strings, where every name is a string or falsy.\<close>

definition as_symptoms :: "sent_symptom list \<Rightarrow> symptom list" where
  "as_symptoms sent =
     map (\<lambda>s. \<lparr> name = (case sent_name s of String_value n \<Rightarrow> Some n | _ \<Rightarrow> None),
                severity = sent_severity s \<rparr>) sent"

definition ruleBasedAssessment_js :: "sent_symptom list \<Rightarrow> user_context \<Rightarrow> thrown + assessment" where
  "ruleBasedAssessment_js sent userContext =
     (if list_ex (\<lambda>s. sent_name s = Other_value) sent then Inl TypeError
      else Inr (ruleBasedAssessment (as_symptoms sent) userContext))"

text \<open>
  The whole function with its \<open>try\<close> and \<open>catch\<close>: \<open>attempt\<close> is the \<open>try\<close> block, which
  returns a value or throws; whatever it throws, the \<open>catch\<close> block answers with
  \<open>ruleBasedAssessment\<close>, and what that call throws leaves the function (the promise
  rejects).
\<close>

definition analyzeSymptoms_js ::
  "(string \<Rightarrow> 'j option) \<Rightarrow> string option \<Rightarrow> completion \<Rightarrow> sent_symptom list \<Rightarrow> user_context
     \<Rightarrow> thrown + 'j analysis"
where
  "analyzeSymptoms_js parse apiKey outcome sent userContext =
     (let attempt =
            (if apiKey = None \<or> apiKey = Some [] then
               (case ruleBasedAssessment_js sent userContext of
                  Inl e \<Rightarrow> Inl e
                | Inr a \<Rightarrow> Inr (Built a))
             else
               (case outcome of
                  Throws \<Rightarrow> Inl ProviderError
                | Resolves c \<Rightarrow>
                    (let response = content_or_empty c in
                     case parse response of
                       Some v \<Rightarrow> Inr (Parsed v)
                     | None \<Rightarrow>
                         (case (indexOf response CHR ''{'', lastIndexOf response CHR ''}'') of
                            (Some firstBrace, Some lastBrace) \<Rightarrow>
                              if lastBrace > firstBrace then
                                (case parse (slice response firstBrace (lastBrace + 1)) of
                                   Some v \<Rightarrow> Inr (Parsed v)
                                 | None \<Rightarrow> Inr (Built (parseFallbackResponse response)))
                              else Inr (Built (parseFallbackResponse response))
                          | _ \<Rightarrow> Inr (Built (parseFallbackResponse response))))))
      in case attempt of
           Inr result \<Rightarrow> Inr result
         | Inl error \<Rightarrow>
             (case ruleBasedAssessment_js sent userContext of
                Inl e \<Rightarrow> Inl e
              | Inr a \<Rightarrow> Inr (Built a)))"


subsection \<open>chatResponse\<close>

datatype role = User | Assistant | System

text \<open>
  A chat message.  Its timestamp and metadata play no part in the functions below.
\<close>

record message =
  role :: role
  content :: string

definition apology :: string where
  "apology = ''I apologize, but I'm having trouble processing your request right now. Please try again in a moment, or contact our support team if the issue persists.''"

text \<open>
  \<open>chatHistory.slice(-10)\<close>, the new message and the user context go into the request;
  the value returned is decided by the provider's outcome alone.
\<close>

definition chatResponse :: "completion \<Rightarrow> string \<Rightarrow> message list \<Rightarrow> user_context \<Rightarrow> string" where
  "chatResponse outcome msg chatHistory userContext =
     (case outcome of
        Throws \<Rightarrow> apology
      | Resolves c \<Rightarrow> content_or_empty c)"


section \<open>The rate limiter (userActionLimiter of the auth middleware)\<close>

text \<open>
  One limiter, made by \<open>userActionLimiter(maxActions, windowMs)\<close>, owns the map
  \<open>userActions\<close> from user ids to lists of timestamps; each guarded action has a limiter
  of its own.  A request carries \<open>req.user\<close> (absent when nobody is authenticated) and is
  handled at the time \<open>now = Date.now()\<close>, in milliseconds.  The middleware either calls
  \<open>next()\<close> or answers with status 429.
\<close>

datatype verdict = Next | TooMany429

type_synonym 'u userActions = "'u \<Rightarrow> int list option"

definition userActionLimiter ::
  "int \<Rightarrow> int \<Rightarrow> 'u userActions \<Rightarrow> 'u option \<Rightarrow> int \<Rightarrow> verdict \<times> 'u userActions"
where
  "userActionLimiter maxActions windowMs userActions user now =
     (case user of
        None \<Rightarrow> (Next, userActions)
      | Some userId \<Rightarrow>
          (let userActionsList = (case userActions userId of None \<Rightarrow> [] | Some l \<Rightarrow> l);
               validActions = filter (\<lambda>time. now - time < windowMs) userActionsList
           in if int (length validActions) \<ge> maxActions
              then (TooMany429, userActions(userId \<mapsto> validActions))
              else (Next, userActions(userId \<mapsto> validActions @ [now]))))"

text \<open>A sequence of requests \<open>(req.user, now)\<close> through one limiter, in order.\<close>

fun serve ::
  "int \<Rightarrow> int \<Rightarrow> 'u userActions \<Rightarrow> ('u option \<times> int) list \<Rightarrow> verdict list \<times> 'u userActions"
where
  "serve maxActions windowMs st [] = ([], st)"
| "serve maxActions windowMs st ((user, now) # reqs) =
     (let (v, st') = userActionLimiter maxActions windowMs st user now;
          (vs, st'') = serve maxActions windowMs st' reqs
      in (v # vs, st''))"

text \<open>
  The sliding window in the words of the specification: a call at time \<open>now\<close> is admitted
  exactly when fewer than \<open>maxCount\<close> of the calls admitted so far lie less than
  \<open>windowMs\<close> before it.  Nothing is ever forgotten here: \<open>admitted\<close> is the whole history.
\<close>

fun allow_spec :: "int \<Rightarrow> int \<Rightarrow> int list \<Rightarrow> int list \<Rightarrow> verdict list" where
  "allow_spec maxCount windowMs admitted [] = []"
| "allow_spec maxCount windowMs admitted (now # ts) =
     (if int (length (filter (\<lambda>t. now - t < windowMs) admitted)) \<ge> maxCount
      then TooMany429 # allow_spec maxCount windowMs admitted ts
      else Next # allow_spec maxCount windowMs (admitted @ [now]) ts)"


section \<open>The chat session (server/models/Chat.js)\<close>

datatype status = Active | Paused | Completed | Archived

datatype emotional_state = Calm | Anxious | Concerned | Urgent | Relaxed

record chat_context =
  emotionalState :: emotional_state
  urgencyLevel :: level

record ai_insights =
  primaryConcern :: "string option"
  riskAssessment_level :: level

record chat =
  status :: status
  messages :: "message list"
  "context" :: chat_context
  aiInsights :: ai_insights

definition urgentKeywords :: "string list" where
  "urgentKeywords =
     [''emergency'', ''urgent'', ''immediate'', ''severe'', ''critical'', ''pain'', ''help'']"

definition updateContext :: "chat \<Rightarrow> chat" where
  "updateContext c =
     (if messages c = [] then c
      else
        (let recentMessages = slice_last 5 (messages c);
             userMessages = filter (\<lambda>msg. role msg = User) recentMessages
         in if userMessages \<noteq> [] then
              (let lastUserMessage = last userMessages;
                   hasUrgentKeywords =
                     list_ex (\<lambda>keyword. includes_str (toLowerCase (content lastUserMessage)) keyword)
                       urgentKeywords
               in if hasUrgentKeywords
                  then c\<lparr> context := (context c)\<lparr> urgencyLevel := High, emotionalState := Urgent \<rparr> \<rparr>
                  else c)
            else c))"

text \<open>
  \<open>addMessage\<close> pushes the message, runs \<open>updateContext\<close> and returns \<open>this.save()\<close>.
  \<open>addMessage_doc\<close> is the document after the first two steps.  \<open>save\<close> validates the
  document against the schema: the content of a message is required, and the schema
  rejects an empty string there; the store itself is taken to be available.
\<close>

definition addMessage_doc :: "role \<Rightarrow> string \<Rightarrow> chat \<Rightarrow> chat" where
  "addMessage_doc r text c =
     updateContext (c\<lparr> messages := messages c @ [\<lparr> role = r, content = text \<rparr>] \<rparr>)"

datatype error = ValidationError

definition save :: "chat \<Rightarrow> error + chat" where
  "save c = (if list_ex (\<lambda>msg. content msg = []) (messages c) then Inl ValidationError else Inr c)"

definition addMessage :: "role \<Rightarrow> string \<Rightarrow> chat \<Rightarrow> error + chat" where
  "addMessage r text c = save (addMessage_doc r text c)"

text \<open>Messages added one after another to the document.\<close>

fun addMessages :: "chat \<Rightarrow> (role \<times> string) list \<Rightarrow> chat" where
  "addMessages c [] = c"
| "addMessages c ((r, text) # ms) = addMessages (addMessage_doc r text c) ms"

record summary =
  summary_status :: status
  messageCount :: nat
  summary_urgencyLevel :: level
  lastMessage :: "message option"

text \<open>\<open>getSummary\<close>, without the identifiers, the title, the category and the dates.\<close>

definition getSummary :: "chat \<Rightarrow> summary" where
  "getSummary c =
     \<lparr> summary_status = status c,
       messageCount = length (messages c),
       summary_urgencyLevel = urgencyLevel (context c),
       lastMessage = (if length (messages c) > 0 then Some (last (messages c)) else None) \<rparr>"


section \<open>The chat route (POST /:sessionId/message)\<close>

definition keywords_pain :: "string list" where
  "keywords_pain = [''pain'', ''hurt'', ''ache'', ''sore'', ''discomfort'']"

definition keywords_emergency :: "string list" where
  "keywords_emergency = [''emergency'', ''urgent'', ''immediate'', ''severe'', ''critical'']"

text \<open>
  \<open>updateChatInsights\<close>.  With no user message, \<open>lastUserMessage\<close> is undefined, reading
  its content throws, and the function's own \<open>catch\<close> leaves the insights as they were.
\<close>

definition updateChatInsights :: "chat \<Rightarrow> chat" where
  "updateChatInsights c =
     (if length (messages c) < 2 then c
      else
        (let userMessages = filter (\<lambda>m. role m = User) (messages c) in
         if userMessages = [] then c
         else
           (let text = toLowerCase (content (last userMessages));
                (primary, urgency) =
                  (if list_ex (\<lambda>word. includes_str text word) keywords_emergency
                   then (''emergency'', High)
                   else if list_ex (\<lambda>word. includes_str text word) keywords_pain
                   then (''symptoms'', Medium)
                   else (''general'', Low))
            in c\<lparr> aiInsights := (aiInsights c)\<lparr> primaryConcern := Some primary,
                                                riskAssessment_level := urgency \<rparr> \<rparr>)))"

definition asksWhoMade :: "string \<Rightarrow> bool" where
  "asksWhoMade text =
     (includes_str text ''who made'' \<or>
      includes_str text ''who built'' \<or>
      includes_str text ''who created'' \<or>
      (includes_str text ''developer'' \<and>
         (includes_str text ''site'' \<or> includes_str text ''app'' \<or>
          includes_str text ''application'' \<or> includes_str text ''website'')))"

definition makerAnswer :: string where
  "makerAnswer = ''This application was made by Tesfahun Kere (programmer).''"

datatype reply =
    BadRequest400
  | NotFound404
  | ServerError500
  | Sent string summary

text \<open>
  What one request does: the reply, the session as the store holds it afterwards, and the
  number of calls made to the model provider.
\<close>

record handled =
  reply :: reply
  stored :: "chat option"
  providerCalls :: nat

text \<open>\<open>Chat.findOne\<close> with the filter \<open>status: { $in: ['active', 'paused'] }\<close>.\<close>

definition findOne :: "chat option \<Rightarrow> chat option" where
  "findOne session =
     (case session of
        None \<Rightarrow> None
      | Some c \<Rightarrow> if status c = Active \<or> status c = Paused then Some c else None)"

text \<open>
  The handler.  \<open>errorsEmpty\<close> is the verdict of the request validators on the body and
  \<open>text\<close> the validated \<open>content\<close>; \<open>session\<close> is what the store holds for the session id
  and the user; \<open>userContext\<close> is built from the user's profile and goes into the prompt
  only; \<open>outcome\<close> is what the provider would answer if it were called.  Every exception
  ends in the handler's \<open>catch\<close>, which replies with status 500.
\<close>

definition postMessage ::
  "completion \<Rightarrow> user_context \<Rightarrow> chat option \<Rightarrow> bool \<Rightarrow> string \<Rightarrow> handled"
where
  "postMessage outcome userContext session errorsEmpty text =
     (if \<not> errorsEmpty then \<lparr> reply = BadRequest400, stored = session, providerCalls = 0 \<rparr>
      else
        (case findOne session of
           None \<Rightarrow> \<lparr> reply = NotFound404, stored = session, providerCalls = 0 \<rparr>
         | Some chat0 \<Rightarrow>
             (case addMessage User text chat0 of
                Inl e \<Rightarrow> \<lparr> reply = ServerError500, stored = session, providerCalls = 0 \<rparr>
              | Inr chat1 \<Rightarrow>
                  if asksWhoMade (toLowerCase text) then
                    (case addMessage Assistant makerAnswer chat1 of
                       Inl e \<Rightarrow> \<lparr> reply = ServerError500, stored = Some chat1, providerCalls = 0 \<rparr>
                     | Inr chat2 \<Rightarrow>
                         (let chat3 = updateChatInsights chat2 in
                          \<lparr> reply = Sent makerAnswer (getSummary chat3),
                            stored = Some chat3, providerCalls = 0 \<rparr>))
                  else
                    (let aiResponse = chatResponse outcome text (messages chat1) userContext;
                         validation = validateResponse aiResponse;
                         finalResponse =
                           (if isValid validation then aiResponse
                            else sanitizedResponse validation)
                     in case addMessage Assistant finalResponse chat1 of
                          Inl e \<Rightarrow> \<lparr> reply = ServerError500, stored = Some chat1, providerCalls = 1 \<rparr>
                        | Inr chat2 \<Rightarrow>
                            (let chat3 = updateChatInsights chat2 in
                             \<lparr> reply = Sent finalResponse (getSummary chat3),
                               stored = Some chat3, providerCalls = 1 \<rparr>)))))"


section \<open>Notions of the specification and example inputs\<close>

text \<open>
  A phrase occurs in a text ignoring letter case: some window of the text, as long as the
  phrase, equals the phrase once both are put in lower case.
\<close>

definition occurs_ignoring_case :: "string \<Rightarrow> string \<Rightarrow> bool" where
  "occurs_ignoring_case phrase s =
     list_ex (\<lambda>i. toLowerCase (slice s i (i + length phrase)) = toLowerCase phrase)
       [0..<Suc (length s)]"

text \<open>A symptom report that matches four rules of the table, and an empty user context.\<close>

definition example_report :: "symptom list" where
  "example_report =
     [\<lparr> name = Some ''Fever'', severity = Some Severe \<rparr>,
      \<lparr> name = Some ''chest pain'', severity = None \<rparr>,
      \<lparr> name = Some ''Fatigue'', severity = Some Mild \<rparr>,
      \<lparr> name = Some ''nausea'', severity = Some Mild \<rparr>]"

text \<open>The same report as the body of a request sends it.\<close>

definition example_sent :: "sent_symptom list" where
  "example_sent =
     [\<lparr> sent_name = String_value ''Fever'', sent_severity = Some Severe \<rparr>,
      \<lparr> sent_name = String_value ''chest pain'', sent_severity = None \<rparr>,
      \<lparr> sent_name = String_value ''Fatigue'', sent_severity = Some Mild \<rparr>,
      \<lparr> sent_name = String_value ''nausea'', sent_severity = Some Mild \<rparr>]"

definition no_context :: user_context where
  "no_context = \<lparr> age = None, gender = None, existingConditions = [], medications = [], allergies = [] \<rparr>"

text \<open>
  Some keyword of a list occurs in a text, ignoring letter case.
\<close>

definition mentions :: "string list \<Rightarrow> string \<Rightarrow> bool" where
  "mentions keywords text = (\<exists>k \<in> set keywords. occurs_ignoring_case k text)"

text \<open>
  An assessment is complete when it has at least one possible condition and every
  probability and confidence lies in \<open>[0, 100]\<close>.
\<close>

definition complete_assessment :: "assessment \<Rightarrow> bool" where
  "complete_assessment a =
     (possibleConditions a \<noteq> [] \<and>
      list_all (\<lambda>c. 0 \<le> probability c \<and> probability c \<le> 100 \<and>
                     0 \<le> confidence c \<and> confidence c \<le> 100) (possibleConditions a))"

text \<open>
  The \<open>possibleConditions\<close> entries of a parsed JSON value: the elements of the array under
  that key (the last one, where the key is repeated), and none where the value is not an
  object or has no such array.
\<close>

definition json_possibleConditions :: "json \<Rightarrow> json list" where
  "json_possibleConditions j =
     (case j of
        JObject ms \<Rightarrow>
          (case map_of (rev ms) ''possibleConditions'' of
             Some (JArray vs) \<Rightarrow> vs
           | _ \<Rightarrow> [])
      | _ \<Rightarrow> [])"

fun has_condition_entry :: "json analysis \<Rightarrow> bool" where
  "has_condition_entry (Built a) = (possibleConditions a \<noteq> [])"
| "has_condition_entry (Parsed j) = (json_possibleConditions j \<noteq> [])"

text \<open>A complete assessment as the model may write it, as JSON text and as a value.\<close>

definition example_json :: string where
  \<open>example_json = ''{"possibleConditions":[{"condition":"Common cold","probability":40,"confidence":55,"description":"A mild viral infection","symptoms":["cough"],"riskLevel":"low"}],"recommendations":[{"type":"lifestyle","title":"Rest","description":"Rest and drink fluids","priority":"low","timeframe":"Ongoing"}],"generalAdvice":"Rest and monitor.","whenToSeekHelp":"If symptoms worsen.","followUp":{"timeframe":"1 week","actions":["Monitor symptoms"]}}''\<close>

definition example_json_value :: json where
  "example_json_value =
     JObject
       [(''possibleConditions'',
           JArray [JObject [(''condition'', JString ''Common cold''),
                            (''probability'', JNumber ''40''),
                            (''confidence'', JNumber ''55''),
                            (''description'', JString ''A mild viral infection''),
                            (''symptoms'', JArray [JString ''cough'']),
                            (''riskLevel'', JString ''low'')]]),
        (''recommendations'',
           JArray [JObject [(''type'', JString ''lifestyle''),
                            (''title'', JString ''Rest''),
                            (''description'', JString ''Rest and drink fluids''),
                            (''priority'', JString ''low''),
                            (''timeframe'', JString ''Ongoing'')]]),
        (''generalAdvice'', JString ''Rest and monitor.''),
        (''whenToSeekHelp'', JString ''If symptoms worsen.''),
        (''followUp'',
           JObject [(''timeframe'', JString ''1 week''),
                    (''actions'', JArray [JString ''Monitor symptoms''])])]"

text \<open>The timestamps the limiter holds for a user; none for a user it has not seen.\<close>

definition stamps :: "'u userActions \<Rightarrow> 'u \<Rightarrow> int list" where
  "stamps st u = (case st u of None \<Rightarrow> [] | Some l \<Rightarrow> l)"

text \<open>
  The limiter with the pruning read literally as "drop all timestamps older than
  \<open>now - windowMs\<close>": a timestamp exactly \<open>windowMs\<close> old is not older than that bound and
  stays.
\<close>

definition allow_as_stated :: "int \<Rightarrow> int \<Rightarrow> int list \<Rightarrow> int \<Rightarrow> verdict \<times> int list" where
  "allow_as_stated maxCount windowMs recorded now =
     (let remaining = filter (\<lambda>t. \<not> t < now - windowMs) recorded
      in if int (length remaining) \<ge> maxCount then (TooMany429, remaining)
         else (Next, remaining @ [now]))"

fun stated_verdicts :: "int \<Rightarrow> int \<Rightarrow> int list \<Rightarrow> int list \<Rightarrow> verdict list" where
  "stated_verdicts maxCount windowMs recorded [] = []"
| "stated_verdicts maxCount windowMs recorded (now # ts) =
     (let (v, recorded') = allow_as_stated maxCount windowMs recorded now
      in v # stated_verdicts maxCount windowMs recorded' ts)"

text \<open>A session as the schema's defaults create it.\<close>

definition new_chat :: chat where
  "new_chat =
     \<lparr> status = Active,
       messages = [],
       context = \<lparr> emotionalState = Calm, urgencyLevel = Low \<rparr>,
       aiInsights = \<lparr> primaryConcern = None, riskAssessment_level = Low \<rparr> \<rparr>"

text \<open>The most recent user message among the last five messages, if there is one.\<close>

definition recent_user_message :: "message list \<Rightarrow> message option" where
  "recent_user_message msgs = find (\<lambda>m. role m = User) (rev (slice_last 5 msgs))"

text \<open>The primary concern and risk level that \<open>updateChatInsights\<close> derives from a text.\<close>

definition insight_of :: "string \<Rightarrow> string \<times> level" where
  "insight_of text =
     (if mentions keywords_emergency text then (''emergency'', High)
      else if mentions keywords_pain text then (''symptoms'', Medium)
      else (''general'', Low))"


section \<open>Properties\<close>

subsection \<open>Substrings\<close>

lemma startsWith_take: "startsWith s k \<longleftrightarrow> take (length k) s = k"
  by (induction s k rule: startsWith.induct) auto

lemma includes_str_window:
  "includes_str s k \<longleftrightarrow> (\<exists>i\<le>length s. take (length k) (drop i s) = k)"
proof (induction s)
  case Nil
  then show ?case by auto
next
  case (Cons c s)
  have "(\<exists>i\<le>length (c # s). take (length k) (drop i (c # s)) = k) \<longleftrightarrow>
        take (length k) (c # s) = k \<or> (\<exists>i\<le>length s. take (length k) (drop i s) = k)"
    (is "?L \<longleftrightarrow> ?A \<or> ?B")
  proof
    assume ?L
    then obtain i where i: "i \<le> length (c # s)" "take (length k) (drop i (c # s)) = k" by blast
    show "?A \<or> ?B"
    proof (cases i)
      case 0
      with i show ?thesis by simp
    next
      case (Suc j)
      with i have "j \<le> length s" "take (length k) (drop j s) = k" by simp_all
      then show ?thesis by blast
    qed
  next
    assume "?A \<or> ?B"
    then show ?L
    proof
      assume ?A
      then have "take (length k) (drop 0 (c # s)) = k" by simp
      then show ?L by blast
    next
      assume ?B
      then obtain j where "j \<le> length s" "take (length k) (drop j s) = k" by blast
      then have "Suc j \<le> length (c # s)" "take (length k) (drop (Suc j) (c # s)) = k" by simp_all
      then show ?L by blast
    qed
  qed
  with Cons show ?case by (simp add: startsWith_take del: startsWith.simps)
qed

lemma occurs_ignoring_case_iff:
  "occurs_ignoring_case phrase s \<longleftrightarrow>
     (\<exists>i\<le>length s. toLowerCase (slice s i (i + length phrase)) = toLowerCase phrase)"
  unfolding occurs_ignoring_case_def list_ex_iff
  by (metis atLeastLessThan_iff set_upt less_Suc_eq_le zero_le)

lemma includes_lower_occurs:
  assumes "toLowerCase k = k"
  shows "includes_str (toLowerCase s) k \<longleftrightarrow> occurs_ignoring_case k s"
proof -
  have w: "take (length k) (drop i (toLowerCase s)) = toLowerCase (slice s i (i + length k))" for i
    by (simp add: toLowerCase_def slice_def take_map drop_map)
  have "includes_str (toLowerCase s) k \<longleftrightarrow>
        (\<exists>i\<le>length s. take (length k) (drop i (toLowerCase s)) = k)"
    by (simp add: includes_str_window toLowerCase_def)
  also have "\<dots> \<longleftrightarrow> (\<exists>i\<le>length s. toLowerCase (slice s i (i + length k)) = toLowerCase k)"
    by (simp only: w assms)
  finally show ?thesis by (simp only: occurs_ignoring_case_iff)
qed

subsection \<open>Facts about the denylist\<close>

lemma dangerousKeywords_lower: "k \<in> set dangerousKeywords \<Longrightarrow> toLowerCase k = k"
  by (auto simp: dangerousKeywords_def toLowerCase_def toLowerCase_char_def)

lemma hasDangerousContent_iff:
  "list_ex (\<lambda>keyword. includes_str (toLowerCase response) keyword) dangerousKeywords \<longleftrightarrow>
   (\<exists>phrase \<in> set dangerousKeywords. occurs_ignoring_case phrase response)"
  by (metis (mono_tags, lifting) list_ex_iff includes_lower_occurs dangerousKeywords_lower)

lemma occurs_longer:
  assumes "occurs_ignoring_case (p @ q) s"
  shows "occurs_ignoring_case p s"
proof -
  from assms obtain i where i: "i \<le> length s"
    "toLowerCase (slice s i (i + length (p @ q))) = toLowerCase (p @ q)"
    by (auto simp: occurs_ignoring_case_iff)
  then have "take (length p) (toLowerCase (slice s i (i + length (p @ q)))) = toLowerCase p"
    by (simp add: toLowerCase_def)
  moreover have "take (length p) (toLowerCase (slice s i (i + length (p @ q)))) =
    toLowerCase (slice s i (i + length p))"
    by (simp add: toLowerCase_def slice_def take_map min_def)
  ultimately show ?thesis using i(1) by (auto simp: occurs_ignoring_case_iff)
qed

subsection \<open>The response validator\<close>

text \<open>
  Claim C4.  For every input string, \<open>validateResponse\<close> answers \<open>isValid = False\<close> with the
  fixed safe-redirect sentence exactly when the string contains one of the denylist phrases
  ignoring letter case, and otherwise answers \<open>isValid = True\<close> with the string unchanged.
  In particular a string containing "natural cure only" is rejected.
\<close>

theorem validateResponse_denylist:
  "validateResponse response =
     (if \<exists>phrase \<in> set dangerousKeywords. occurs_ignoring_case phrase response
      then \<lparr> isValid = False, sanitizedResponse = safeRedirect \<rparr>
      else \<lparr> isValid = True, sanitizedResponse = response \<rparr>)
   \<and> (occurs_ignoring_case ''natural cure only'' response \<longrightarrow>
        validateResponse response = \<lparr> isValid = False, sanitizedResponse = safeRedirect \<rparr>)"
proof -
  have main: "validateResponse response =
     (if \<exists>phrase \<in> set dangerousKeywords. occurs_ignoring_case phrase response
      then \<lparr> isValid = False, sanitizedResponse = safeRedirect \<rparr>
      else \<lparr> isValid = True, sanitizedResponse = response \<rparr>)"
    unfolding validateResponse_def Let_def hasDangerousContent_iff ..
  have "occurs_ignoring_case ''natural cure'' response"
    if "occurs_ignoring_case ''natural cure only'' response"
    using occurs_longer [of "''natural cure''" "'' only''" response] that by simp
  moreover have "''natural cure'' \<in> set dangerousKeywords"
    by (simp add: dangerousKeywords_def)
  ultimately show ?thesis using main by auto
qed

text \<open>
  The theorem at a text that holds "natural cure only" in mixed case, and at a clean text.
\<close>

theorem validateResponse_denylist_witness:
  "occurs_ignoring_case ''natural cure only'' ''Rely on a Natural Cure ONLY, it works.''
   \<and> validateResponse ''Rely on a Natural Cure ONLY, it works.'' =
       \<lparr> isValid = False, sanitizedResponse = safeRedirect \<rparr>
   \<and> \<not> (\<exists>phrase \<in> set dangerousKeywords. occurs_ignoring_case phrase ''Drink water and rest.'')
   \<and> validateResponse ''Drink water and rest.'' =
       \<lparr> isValid = True, sanitizedResponse = ''Drink water and rest.'' \<rparr>"
proof -
  have a: "occurs_ignoring_case ''natural cure only'' ''Rely on a Natural Cure ONLY, it works.''"
    by code_simp
  have b: "\<not> (\<exists>phrase \<in> set dangerousKeywords. occurs_ignoring_case phrase ''Drink water and rest.'')"
    by code_simp
  show ?thesis
    using a b
      validateResponse_denylist [of "''Rely on a Natural Cure ONLY, it works.''", THEN conjunct2]
      validateResponse_denylist [of "''Drink water and rest.''", THEN conjunct1]
    by simp
qed


subsection \<open>The heuristic assessor\<close>

lemma foldl_sum_scores:
  "foldl (\<lambda>sum s. sum + f s) a xs = a + sum_list (map f xs)" for a :: int
  by (induction xs arbitrary: a) simp_all

lemma foldl_max_scores:
  "foldl (\<lambda>mx s. max mx (f s)) a xs = Max (insert a (set (map f xs)))" for a :: int
proof (induction xs arbitrary: a)
  case Nil
  then show ?case by simp
next
  case (Cons x xs)
  have "Max (insert (max a (f x)) (set (map f xs))) = Max (insert a (insert (f x) (set (map f xs))))"
    by (cases "set (map f xs) = {}") (simp_all add: max.assoc)
  with Cons show ?case by simp
qed

lemma severityScore_bounds: "1 \<le> severityScore s \<and> severityScore s \<le> 3"
  by (simp add: severityScore_def split: option.split severity.split)

lemma totalSeverity_sum: "totalSeverity syms = sum_list (map (\<lambda>s. severityScore (severity s)) syms)"
  by (simp add: totalSeverity_def foldl_sum_scores)

lemma totalSeverity_nonneg: "0 \<le> totalSeverity syms"
proof -
  have "0 \<le> sum_list (map (\<lambda>s. severityScore (severity s)) syms)"
    by (rule sum_list_nonneg) (use severityScore_bounds in \<open>auto intro: order_trans [of 0 1]\<close>)
  then show ?thesis by (simp add: totalSeverity_sum)
qed

lemma maxSeverity_Max_insert:
  "maxSeverity syms = Max (insert 1 (set (map (\<lambda>s. severityScore (severity s)) syms)))"
  by (simp add: maxSeverity_def foldl_max_scores)

lemma maxSeverity_Max:
  assumes "syms \<noteq> []"
  shows "maxSeverity syms = Max (set (map (\<lambda>s. severityScore (severity s)) syms))"
proof -
  let ?S = "set (map (\<lambda>s. severityScore (severity s)) syms)"
  have ne: "?S \<noteq> {}" and fin: "finite ?S" using assms by simp_all
  have "1 \<le> Max ?S"
  proof -
    from assms have "severityScore (severity (hd syms)) \<in> ?S" by (cases syms) simp_all
    then have "severityScore (severity (hd syms)) \<le> Max ?S" using fin by (rule_tac Max_ge)
    moreover have "1 \<le> severityScore (severity (hd syms))" using severityScore_bounds by blast
    ultimately show ?thesis by linarith
  qed
  then have "Max (insert 1 ?S) = Max ?S"
    using ne fin by (simp add: max_def)
  then show ?thesis by (simp only: maxSeverity_Max_insert)
qed

lemma maxSeverity_bounds: "1 \<le> maxSeverity syms \<and> maxSeverity syms \<le> 3"
proof -
  let ?S = "insert 1 (set (map (\<lambda>s. severityScore (severity s)) syms))"
  have "Max ?S \<in> ?S" by (rule Max_in) simp_all
  then show ?thesis
    unfolding maxSeverity_Max_insert using severityScore_bounds by auto
qed

lemma possibleConditions_length:
  "length (possibleConditions (ruleBasedAssessment syms ctx)) = min 3 (length (baseConditions syms))"
  by (simp add: ruleBasedAssessment_def Let_def min.commute)

lemma possibleConditions_nth:
  assumes "k < length (possibleConditions (ruleBasedAssessment syms ctx))"
  shows "possibleConditions (ruleBasedAssessment syms ctx) ! k = toCondition syms (k, baseConditions syms ! k)"
proof -
  from assms have k: "k < length (take 3 (baseConditions syms))"
    by (simp add: possibleConditions_length)
  then have "enumerate 0 (take 3 (baseConditions syms)) ! k = (k, baseConditions syms ! k)"
    by (simp add: nth_enumerate_eq)
  with k show ?thesis
    by (simp add: ruleBasedAssessment_def Let_def)
qed

lemma matched_intersects:
  "matched syms = filter (\<lambda>r. set (match r) \<inter> set (names syms) \<noteq> {}) rules"
  unfolding matched_def list_ex_iff by (rule filter_cong) auto

lemma rules_riskBase: "r \<in> set rules \<Longrightarrow> 20 \<le> riskBase r \<and> riskBase r \<le> 50"
  by (auto simp: rules_def)

lemma baseConditions_riskBase:
  assumes "r \<in> set (baseConditions syms)"
  shows "15 \<le> riskBase r \<and> riskBase r \<le> 50"
proof (cases "matched syms = []")
  case True
  with assms show ?thesis by (simp add: baseConditions_def)
next
  case False
  with assms have "r \<in> set rules" by (auto simp: baseConditions_def matched_def)
  then show ?thesis using rules_riskBase by fastforce
qed

lemma toCondition_range:
  assumes "15 \<le> riskBase r" and "k \<le> 2"
  shows "25 \<le> probability (toCondition syms (k, r)) \<and> probability (toCondition syms (k, r)) \<le> 90
       \<and> 30 \<le> confidence (toCondition syms (k, r)) \<and> confidence (toCondition syms (k, r)) \<le> 90"
  using assms maxSeverity_bounds [of syms] totalSeverity_nonneg [of syms]
  by (simp add: toCondition_def Let_def)

lemma ruleBased_complete:
  "possibleConditions (ruleBasedAssessment syms ctx) \<noteq> []"
  "c \<in> set (possibleConditions (ruleBasedAssessment syms ctx)) \<Longrightarrow>
     0 \<le> probability c \<and> probability c \<le> 100 \<and> 0 \<le> confidence c \<and> confidence c \<le> 100"
proof -
  have "baseConditions syms \<noteq> []" by (simp add: baseConditions_def)
  then show "possibleConditions (ruleBasedAssessment syms ctx) \<noteq> []"
    using possibleConditions_length [of syms ctx] by (metis length_0_conv min_0R zero_neq_numeral min_def length_greater_0_conv not_less_zero)
next
  assume "c \<in> set (possibleConditions (ruleBasedAssessment syms ctx))"
  then obtain k where k: "k < length (possibleConditions (ruleBasedAssessment syms ctx))"
    and c: "c = possibleConditions (ruleBasedAssessment syms ctx) ! k"
    by (auto simp: in_set_conv_nth)
  from k have k3: "k \<le> 2" and kb: "k < length (baseConditions syms)"
    by (simp_all add: possibleConditions_length)
  from kb have "15 \<le> riskBase (baseConditions syms ! k)"
    using baseConditions_riskBase nth_mem by blast
  from toCondition_range [OF this k3, of syms] show
    "0 \<le> probability c \<and> probability c \<le> 100 \<and> 0 \<le> confidence c \<and> confidence c \<le> 100"
    unfolding c possibleConditions_nth [OF k] by linarith
qed

lemma toCondition_fields:
  "condition (toCondition syms (k, r)) = rule_condition r"
  "probability (toCondition syms (k, r)) = min 90 (riskBase r + maxSeverity syms * 10 + int k * 5)"
  "confidence (toCondition syms (k, r)) = min 90 (40 + totalSeverity syms * 8 - int k * 5)"
  "riskLevel (toCondition syms (k, r)) =
     (if probability (toCondition syms (k, r)) \<ge> 70 then High
      else if probability (toCondition syms (k, r)) \<ge> 45 then Medium else Low)"
  by (simp_all add: toCondition_def Let_def)

text \<open>
  Claim C3.  The heuristic assessor scores mild, moderate and severe as 1, 2 and 3;
  \<open>totalSeverity\<close> is the sum and \<open>maxSeverity\<close> the maximum of the scores of the reported
  symptoms; the matched rules are the rules of the table that share a name with the
  report, in table order; at most three of them become conditions, and the condition at
  rank \<open>k\<close> has probability \<open>min(90, riskBase + maxSeverity*10 + k*5)\<close>, confidence
  \<open>min(90, 40 + totalSeverity*8 - k*5)\<close>, and risk level high from probability 70, medium
  from 45, low below.
\<close>

theorem ruleBasedAssessment_ranking:
  "severityScore (Some Mild) = 1 \<and> severityScore (Some Moderate) = 2 \<and> severityScore (Some Severe) = 3
   \<and> totalSeverity syms = sum_list (map (\<lambda>s. severityScore (severity s)) syms)
   \<and> (syms \<noteq> [] \<longrightarrow> maxSeverity syms = Max (set (map (\<lambda>s. severityScore (severity s)) syms)))
   \<and> matched syms = filter (\<lambda>r. set (match r) \<inter> set (names syms) \<noteq> {}) rules
   \<and> (matched syms \<noteq> [] \<longrightarrow>
        length (possibleConditions (ruleBasedAssessment syms ctx)) = min 3 (length (matched syms))
        \<and> (\<forall>k < length (possibleConditions (ruleBasedAssessment syms ctx)).
             condition (possibleConditions (ruleBasedAssessment syms ctx) ! k)
               = rule_condition (matched syms ! k)
           \<and> probability (possibleConditions (ruleBasedAssessment syms ctx) ! k)
               = min 90 (riskBase (matched syms ! k) + maxSeverity syms * 10 + int k * 5)
           \<and> confidence (possibleConditions (ruleBasedAssessment syms ctx) ! k)
               = min 90 (40 + totalSeverity syms * 8 - int k * 5)
           \<and> riskLevel (possibleConditions (ruleBasedAssessment syms ctx) ! k)
               = (if probability (possibleConditions (ruleBasedAssessment syms ctx) ! k) \<ge> 70 then High
                  else if probability (possibleConditions (ruleBasedAssessment syms ctx) ! k) \<ge> 45
                  then Medium else Low)))"
proof -
  have scores: "severityScore (Some Mild) = 1 \<and> severityScore (Some Moderate) = 2
      \<and> severityScore (Some Severe) = 3"
    by (simp add: severityScore_def)
  have ranked: "length (possibleConditions (ruleBasedAssessment syms ctx)) = min 3 (length (matched syms))
        \<and> (\<forall>k < length (possibleConditions (ruleBasedAssessment syms ctx)).
             condition (possibleConditions (ruleBasedAssessment syms ctx) ! k)
               = rule_condition (matched syms ! k)
           \<and> probability (possibleConditions (ruleBasedAssessment syms ctx) ! k)
               = min 90 (riskBase (matched syms ! k) + maxSeverity syms * 10 + int k * 5)
           \<and> confidence (possibleConditions (ruleBasedAssessment syms ctx) ! k)
               = min 90 (40 + totalSeverity syms * 8 - int k * 5)
           \<and> riskLevel (possibleConditions (ruleBasedAssessment syms ctx) ! k)
               = (if probability (possibleConditions (ruleBasedAssessment syms ctx) ! k) \<ge> 70 then High
                  else if probability (possibleConditions (ruleBasedAssessment syms ctx) ! k) \<ge> 45
                  then Medium else Low))"
    if m: "matched syms \<noteq> []"
  proof -
    from m have base: "baseConditions syms = matched syms" by (simp add: baseConditions_def)
    show ?thesis
      using possibleConditions_length [of syms ctx] possibleConditions_nth [of _ syms ctx]
      by (simp add: base toCondition_fields)
  qed
  show ?thesis
    using scores totalSeverity_sum [of syms] maxSeverity_Max [of syms] matched_intersects [of syms] ranked
    by blast
qed

text \<open>
  The theorem at a report of four symptoms that matches four rules: three conditions come
  out, and the third follows the formulas with \<open>maxSeverity = 3\<close> and \<open>totalSeverity = 6\<close>.
\<close>

theorem ruleBasedAssessment_ranking_witness:
  "example_report \<noteq> [] \<and> matched example_report \<noteq> []
   \<and> 2 < length (possibleConditions (ruleBasedAssessment example_report no_context))
   \<and> condition (possibleConditions (ruleBasedAssessment example_report no_context) ! 2)
        = ''Cardiac or musculoskeletal cause''
   \<and> probability (possibleConditions (ruleBasedAssessment example_report no_context) ! 2) = 90
   \<and> confidence (possibleConditions (ruleBasedAssessment example_report no_context) ! 2) = 78
   \<and> riskLevel (possibleConditions (ruleBasedAssessment example_report no_context) ! 2) = High"
proof -
  have m: "matched example_report = [rules ! 0, rules ! 1, rules ! 2, rules ! 3]"
    by code_simp
  have mx: "maxSeverity example_report = 3" and tot: "totalSeverity example_report = 6"
    by code_simp+
  have r2: "rule_condition (rules ! 2) = ''Cardiac or musculoskeletal cause''" "riskBase (rules ! 2) = 50"
    by (simp_all add: rules_def)
  have ne: "example_report \<noteq> []" "matched example_report \<noteq> []"
    by (simp add: example_report_def) (simp add: m)
  note ranked = ruleBasedAssessment_ranking [of example_report no_context,
      THEN conjunct2, THEN conjunct2, THEN conjunct2, THEN conjunct2, THEN conjunct2,
      THEN conjunct2, THEN mp, OF ne(2)]
  from ranked have len: "2 < length (possibleConditions (ruleBasedAssessment example_report no_context))"
    by (simp add: m)
  from ranked [THEN conjunct2, THEN spec, THEN mp, OF len] ne len
  show ?thesis by (simp add: m mx tot r2)
qed

subsection \<open>analyzeSymptoms\<close>

lemma indexOf_first:
  "c \<notin> set pre \<Longrightarrow> indexOf (pre @ c # rest) c = Some (length pre)"
  by (induction pre) auto

lemma lastIndexOf_last:
  assumes "c \<notin> set post"
  shows "lastIndexOf (xs @ c # post) c = Some (length xs)"
proof -
  have "indexOf (rev post @ c # rev xs) c = Some (length (rev post))"
    using assms by (intro indexOf_first) simp
  then show ?thesis by (simp add: lastIndexOf_def)
qed

lemma slice_middle: "slice (pre @ body @ post) (length pre) (length pre + length body) = body"
  by (simp add: slice_def)

lemma brace_slice:
  assumes "CHR ''{'' \<notin> set pre" and "CHR ''}'' \<notin> set post"
  shows "indexOf (pre @ (CHR ''{'' # mid @ [CHR ''}'']) @ post) CHR ''{'' = Some (length pre)"
    and "lastIndexOf (pre @ (CHR ''{'' # mid @ [CHR ''}'']) @ post) CHR ''}'' = Some (length pre + length mid + 1)"
    and "slice (pre @ (CHR ''{'' # mid @ [CHR ''}'']) @ post) (length pre) (length pre + length mid + 1 + 1)
           = CHR ''{'' # mid @ [CHR ''}'']"
proof -
  show "indexOf (pre @ (CHR ''{'' # mid @ [CHR ''}'']) @ post) CHR ''{'' = Some (length pre)"
    using indexOf_first [OF assms(1)] by simp
  have "lastIndexOf ((pre @ CHR ''{'' # mid) @ CHR ''}'' # post) CHR ''}'' = Some (length (pre @ CHR ''{'' # mid))"
    using assms(2) by (rule lastIndexOf_last)
  then show "lastIndexOf (pre @ (CHR ''{'' # mid @ [CHR ''}'']) @ post) CHR ''}'' = Some (length pre + length mid + 1)"
    by simp
  show "slice (pre @ (CHR ''{'' # mid @ [CHR ''}'']) @ post) (length pre) (length pre + length mid + 1 + 1)
           = CHR ''{'' # mid @ [CHR ''}'']"
    using slice_middle [of pre "CHR ''{'' # mid @ [CHR ''}'']" post] by (simp add: add.commute add.left_commute)
qed

lemma parseFallback_complete: "complete_assessment (parseFallbackResponse response)"
  by (simp add: complete_assessment_def parseFallbackResponse_def)

lemma ruleBased_complete_assessment: "complete_assessment (ruleBasedAssessment syms ctx)"
  using ruleBased_complete [where syms = syms and ctx = ctx]
  by (simp add: complete_assessment_def list_all_iff)

lemma example_json_parsed: "JSON_parse example_json = Some example_json_value"
  unfolding example_json_def example_json_value_def by code_simp

lemma ruleBasedAssessment_js_strings:
  "list_all (\<lambda>s. sent_name s \<noteq> Other_value) sent \<Longrightarrow>
     ruleBasedAssessment_js sent ctx = Inr (ruleBasedAssessment (as_symptoms sent) ctx)"
  by (auto simp: ruleBasedAssessment_js_def list_ex_iff list_all_iff)

lemma ruleBasedAssessment_js_complete:
  "ruleBasedAssessment_js sent ctx = Inr a \<Longrightarrow> complete_assessment a"
  by (auto simp: ruleBasedAssessment_js_def ruleBased_complete_assessment split: if_splits)

text \<open>
  Where every name is a string or falsy, the function returns what \<open>analyzeSymptoms\<close> on
  the string names returns; with a credential and a reply, the names are not read at all.
\<close>

lemma analyzeSymptoms_js_strings:
  assumes "list_all (\<lambda>s. sent_name s \<noteq> Other_value) sent"
  shows "analyzeSymptoms_js parse apiKey outcome sent ctx
           = Inr (analyzeSymptoms parse apiKey outcome (as_symptoms sent) ctx)"
  by (auto simp: analyzeSymptoms_js_def analyzeSymptoms_def Let_def
        ruleBasedAssessment_js_strings [OF assms]
      split: completion.split option.split)

lemma analyzeSymptoms_js_resolved:
  assumes "apiKey \<noteq> None" "apiKey \<noteq> Some []"
  shows "analyzeSymptoms_js parse apiKey (Resolves c) sent ctx
           = Inr (analyzeSymptoms parse apiKey (Resolves c) syms ctx)"
  using assms
  by (auto simp: analyzeSymptoms_js_def analyzeSymptoms_def Let_def split: option.split)

lemma analyzeSymptoms_js_heuristic:
  assumes "apiKey = None \<or> apiKey = Some [] \<or> outcome = Throws"
  shows "analyzeSymptoms_js parse apiKey outcome sent ctx
           = (case ruleBasedAssessment_js sent ctx of Inl e \<Rightarrow> Inl e | Inr a \<Rightarrow> Inr (Built a))"
proof (cases "apiKey = None \<or> apiKey = Some []")
  case True
  then show ?thesis
    by (simp add: analyzeSymptoms_js_def split: sum.split)
next
  case False
  with assms have "outcome = Throws" by blast
  with False show ?thesis
    by (simp add: analyzeSymptoms_js_def split: sum.split)
qed

lemma example_sent_report: "as_symptoms example_sent = example_report"
  by (simp add: as_symptoms_def example_sent_def example_report_def)

text \<open>
  Claim C1, as amended.  For every symptom list whose names are strings or falsy, and for
  every outcome, \<open>analyzeSymptoms\<close> returns a value and throws nothing.  With no
  credential, or when the model call throws, the value is the heuristic assessment.  With
  a credential and a reply: if the reply's text parses, the parsed value is returned as
  it is; if it does not and the slice from the first \<open>{\<close> to a later last \<open>}\<close> parses, that
  parsed value is returned as it is; otherwise the fallback assessment of the text is
  returned.  Every assessment the service builds itself (heuristic or fallback) is
  complete: at least one possible condition, and every probability and confidence in
  \<open>[0, 100]\<close>.  A parsed value is not checked.
\<close>

theorem analyzeSymptoms_outcomes:
  "(list_all (\<lambda>s. sent_name s \<noteq> Other_value) sent \<longrightarrow>
      (\<exists>r. analyzeSymptoms_js parse apiKey outcome sent ctx = Inr r)
      \<and> (apiKey = None \<or> apiKey = Some [] \<or> outcome = Throws \<longrightarrow>
           analyzeSymptoms_js parse apiKey outcome sent ctx
             = Inr (Built (ruleBasedAssessment (as_symptoms sent) ctx))))
   \<and> (apiKey \<noteq> None \<and> apiKey \<noteq> Some [] \<and> outcome = Resolves c \<longrightarrow>
        (parse (content_or_empty c) = Some v \<longrightarrow>
           analyzeSymptoms_js parse apiKey outcome sent ctx = Inr (Parsed v))
      \<and> (parse (content_or_empty c) = None \<and>
         indexOf (content_or_empty c) CHR ''{'' = Some firstBrace \<and>
         lastIndexOf (content_or_empty c) CHR ''}'' = Some lastBrace \<and>
         firstBrace < lastBrace \<and>
         parse (slice (content_or_empty c) firstBrace (lastBrace + 1)) = Some v \<longrightarrow>
           analyzeSymptoms_js parse apiKey outcome sent ctx = Inr (Parsed v))
      \<and> (parse (content_or_empty c) = None \<and>
         (\<forall>f l. indexOf (content_or_empty c) CHR ''{'' = Some f \<and>
                lastIndexOf (content_or_empty c) CHR ''}'' = Some l \<and> f < l \<longrightarrow>
                parse (slice (content_or_empty c) f (l + 1)) = None) \<longrightarrow>
           analyzeSymptoms_js parse apiKey outcome sent ctx
             = Inr (Built (parseFallbackResponse (content_or_empty c)))))
   \<and> (\<forall>a. analyzeSymptoms_js parse apiKey outcome sent ctx = Inr (Built a) \<longrightarrow>
          complete_assessment a)"
proof (intro conjI impI allI)
  assume s: "list_all (\<lambda>s. sent_name s \<noteq> Other_value) sent"
  show "\<exists>r. analyzeSymptoms_js parse apiKey outcome sent ctx = Inr r"
    by (simp add: analyzeSymptoms_js_strings [OF s])
  assume "apiKey = None \<or> apiKey = Some [] \<or> outcome = Throws"
  then show "analyzeSymptoms_js parse apiKey outcome sent ctx
             = Inr (Built (ruleBasedAssessment (as_symptoms sent) ctx))"
    by (auto simp: analyzeSymptoms_js_strings [OF s] analyzeSymptoms_def)
next
  assume k: "apiKey \<noteq> None \<and> apiKey \<noteq> Some [] \<and> outcome = Resolves c"
    and p: "parse (content_or_empty c) = Some v"
  then show "analyzeSymptoms_js parse apiKey outcome sent ctx = Inr (Parsed v)"
    by (auto simp: analyzeSymptoms_js_def Let_def)
next
  assume k: "apiKey \<noteq> None \<and> apiKey \<noteq> Some [] \<and> outcome = Resolves c"
    and p: "parse (content_or_empty c) = None \<and>
         indexOf (content_or_empty c) CHR ''{'' = Some firstBrace \<and>
         lastIndexOf (content_or_empty c) CHR ''}'' = Some lastBrace \<and>
         firstBrace < lastBrace \<and>
         parse (slice (content_or_empty c) firstBrace (lastBrace + 1)) = Some v"
  then show "analyzeSymptoms_js parse apiKey outcome sent ctx = Inr (Parsed v)"
    by (auto simp: analyzeSymptoms_js_def Let_def)
next
  assume k: "apiKey \<noteq> None \<and> apiKey \<noteq> Some [] \<and> outcome = Resolves c"
    and p: "parse (content_or_empty c) = None \<and>
         (\<forall>f l. indexOf (content_or_empty c) CHR ''{'' = Some f \<and>
                lastIndexOf (content_or_empty c) CHR ''}'' = Some l \<and> f < l \<longrightarrow>
                parse (slice (content_or_empty c) f (l + 1)) = None)"
  then show "analyzeSymptoms_js parse apiKey outcome sent ctx
             = Inr (Built (parseFallbackResponse (content_or_empty c)))"
    by (auto simp: analyzeSymptoms_js_def Let_def split: option.split)
next
  fix a
  assume r: "analyzeSymptoms_js parse apiKey outcome sent ctx = Inr (Built a)"
  show "complete_assessment a"
  proof (cases "apiKey = None \<or> apiKey = Some [] \<or> outcome = Throws")
    case True
    with r have "ruleBasedAssessment_js sent ctx = Inr a"
      by (simp add: analyzeSymptoms_js_heuristic split: sum.splits)
    then show ?thesis by (rule ruleBasedAssessment_js_complete)
  next
    case False
    then obtain c' where "outcome = Resolves c'" by (cases outcome) auto
    with False r show ?thesis
      by (auto simp: analyzeSymptoms_js_def Let_def parseFallback_complete
          split: option.splits if_splits)
  qed
qed

text \<open>
  The theorem at a report with string names: a call that throws, a reply that is no
  JSON, and a reply that is the JSON text of a complete assessment.
\<close>

theorem analyzeSymptoms_outcomes_witness:
  "list_all (\<lambda>s. sent_name s \<noteq> Other_value) example_sent
   \<and> analyzeSymptoms_js JSON_parse (Some ''gsk_1'') Throws example_sent no_context
       = Inr (Built (ruleBasedAssessment example_report no_context))
   \<and> complete_assessment (ruleBasedAssessment example_report no_context)
   \<and> JSON_parse ''I cannot answer that.'' = None
   \<and> analyzeSymptoms_js JSON_parse (Some ''gsk_1'') (Resolves (Some ''I cannot answer that.''))
         example_sent no_context
       = Inr (Built (parseFallbackResponse ''I cannot answer that.''))
   \<and> JSON_parse example_json = Some example_json_value
   \<and> analyzeSymptoms_js JSON_parse (Some ''gsk_1'') (Resolves (Some example_json))
         example_sent no_context
       = Inr (Parsed example_json_value)"
proof -
  have s: "list_all (\<lambda>s. sent_name s \<noteq> Other_value) example_sent"
    by (simp add: example_sent_def)
  have t: "analyzeSymptoms_js JSON_parse (Some ''gsk_1'') Throws example_sent no_context
       = Inr (Built (ruleBasedAssessment example_report no_context))"
    using analyzeSymptoms_outcomes [where sent = example_sent and parse = JSON_parse
        and apiKey = "Some ''gsk_1''" and outcome = Throws and ctx = no_context,
        THEN conjunct1, THEN mp, OF s]
    by (simp add: example_sent_report)
  have c: "complete_assessment (ruleBasedAssessment example_report no_context)"
    using analyzeSymptoms_outcomes [where sent = example_sent and parse = JSON_parse
        and apiKey = "Some ''gsk_1''" and outcome = Throws and ctx = no_context,
        THEN conjunct2, THEN conjunct2] t
    by simp
  have n: "JSON_parse ''I cannot answer that.'' = None" by code_simp
  have i: "indexOf ''I cannot answer that.'' CHR ''{'' = None" by simp
  have f: "analyzeSymptoms_js JSON_parse (Some ''gsk_1'') (Resolves (Some ''I cannot answer that.''))
         example_sent no_context
       = Inr (Built (parseFallbackResponse ''I cannot answer that.''))"
    using analyzeSymptoms_outcomes [where sent = example_sent and parse = JSON_parse
        and apiKey = "Some ''gsk_1''" and outcome = "Resolves (Some ''I cannot answer that.'')"
        and c = "Some ''I cannot answer that.''" and ctx = no_context,
        THEN conjunct2, THEN conjunct1] n i
    by (simp add: content_or_empty_def)
  have p: "analyzeSymptoms_js JSON_parse (Some ''gsk_1'') (Resolves (Some example_json))
         example_sent no_context
       = Inr (Parsed example_json_value)"
    using analyzeSymptoms_outcomes [where sent = example_sent and parse = JSON_parse
        and apiKey = "Some ''gsk_1''" and outcome = "Resolves (Some example_json)"
        and c = "Some example_json" and v = example_json_value and ctx = no_context,
        THEN conjunct2, THEN conjunct1] example_json_parsed
    by (simp add: content_or_empty_def)
  from s t c n f p example_json_parsed show ?thesis by simp
qed

text \<open>
  Claim C1 as stated fails: a model reply that is valid JSON with an empty
  \<open>possibleConditions\<close> array is returned as it is, with no condition entry.
\<close>

theorem analyzeSymptoms_unchecked_json_counterexample:
  \<open>analyzeSymptoms JSON_parse (Some ''gsk_1'')
      (Resolves (Some ''{"possibleConditions":[],"generalAdvice":"No matching condition."}''))
      example_report no_context
    = Parsed (JObject [(''possibleConditions'', JArray []),
                       (''generalAdvice'', JString ''No matching condition.'')])
   \<and> \<not> has_condition_entry (analyzeSymptoms JSON_parse (Some ''gsk_1'')
      (Resolves (Some ''{"possibleConditions":[],"generalAdvice":"No matching condition."}''))
      example_report no_context)
   \<and> analyzeSymptoms_js JSON_parse (Some ''gsk_1'')
      (Resolves (Some ''{"possibleConditions":[],"generalAdvice":"No matching condition."}''))
      example_sent no_context
    = Inr (Parsed (JObject [(''possibleConditions'', JArray []),
                       (''generalAdvice'', JString ''No matching condition.'')]))\<close>
proof -
  have p: \<open>JSON_parse ''{"possibleConditions":[],"generalAdvice":"No matching condition."}''
      = Some (JObject [(''possibleConditions'', JArray []),
                       (''generalAdvice'', JString ''No matching condition.'')])\<close>
    by code_simp
  show ?thesis
    by (simp add: analyzeSymptoms_def analyzeSymptoms_js_def content_or_empty_def p
        json_possibleConditions_def)
qed


text \<open>
  With no credential, a name that is a truthy non-string makes the call throw in the
  \<open>try\<close> block and again in the \<open>catch\<close> block.
\<close>

lemma analyzeSymptoms_js_number_name:
  "analyzeSymptoms_js parse None outcome [\<lparr> sent_name = Other_value, sent_severity = Some Mild \<rparr>] ctx
     = Inl TypeError"
  by (simp add: analyzeSymptoms_js_def ruleBasedAssessment_js_def)


lemma analyzeSymptoms_slice_parsed:
  assumes "apiKey \<noteq> None" "apiKey \<noteq> Some []"
    and "parse response = None"
    and "indexOf response CHR ''{'' = Some firstBrace"
    and "lastIndexOf response CHR ''}'' = Some lastBrace"
    and "firstBrace < lastBrace"
    and "parse (slice response firstBrace (lastBrace + 1)) = Some v"
  shows "analyzeSymptoms parse apiKey (Resolves (Some response)) syms ctx = Parsed v"
  using assms by (simp add: analyzeSymptoms_def content_or_empty_def)

text \<open>
  Claim C5, as amended.  With a credential and a reply text: if the whole text parses,
  its value is returned; if it does not, and the text is an object text \<open>{...}\<close> between a
  leading part without \<open>{\<close> and a trailing part without \<open>}\<close>, then the slice from the
  first \<open>{\<close> to the last \<open>}\<close> is that object text, and its value is returned.
\<close>

theorem analyzeSymptoms_brace_slice:
  assumes key: "apiKey \<noteq> None" "apiKey \<noteq> Some []"
  shows "(parse response = Some v \<longrightarrow>
            analyzeSymptoms parse apiKey (Resolves (Some response)) syms ctx = Parsed v)
       \<and> (parse response = None \<and>
          response = pre @ (CHR ''{'' # mid @ [CHR ''}'']) @ post \<and>
          CHR ''{'' \<notin> set pre \<and> CHR ''}'' \<notin> set post \<and>
          parse (CHR ''{'' # mid @ [CHR ''}'']) = Some v \<longrightarrow>
            analyzeSymptoms parse apiKey (Resolves (Some response)) syms ctx = Parsed v)"
proof (intro conjI impI)
  assume "parse response = Some v"
  then show "analyzeSymptoms parse apiKey (Resolves (Some response)) syms ctx = Parsed v"
    using key by (simp add: analyzeSymptoms_def content_or_empty_def)
next
  assume a: "parse response = None \<and>
          response = pre @ (CHR ''{'' # mid @ [CHR ''}'']) @ post \<and>
          CHR ''{'' \<notin> set pre \<and> CHR ''}'' \<notin> set post \<and>
          parse (CHR ''{'' # mid @ [CHR ''}'']) = Some v"
  then have r: "response = pre @ (CHR ''{'' # mid @ [CHR ''}'']) @ post"
    and pre: "CHR ''{'' \<notin> set pre" and post: "CHR ''}'' \<notin> set post"
    and whole: "parse response = None"
    and body: "parse (CHR ''{'' # mid @ [CHR ''}'']) = Some v"
    by blast+
  note b = brace_slice [OF pre post, of mid, folded r]
  have sl: "parse (slice response (length pre) (length pre + length mid + 1 + 1)) = Some v"
    by (simp only: b(3) body)
  have lt: "length pre < length pre + length mid + 1" by simp
  show "analyzeSymptoms parse apiKey (Resolves (Some response)) syms ctx = Parsed v"
    by (rule analyzeSymptoms_slice_parsed [where parse = parse, OF key whole b(1) b(2) lt sl])
qed

text \<open>
  The theorem at a complete assessment wrapped as "Sure! {...} Hope that helps.".
\<close>

theorem analyzeSymptoms_brace_slice_witness:
  "Some ''gsk_1'' \<noteq> None \<and> Some ''gsk_1'' \<noteq> Some []
   \<and> JSON_parse (''Sure! '' @ example_json @ '' Hope that helps.'') = None
   \<and> JSON_parse example_json = Some example_json_value
   \<and> analyzeSymptoms JSON_parse (Some ''gsk_1'')
        (Resolves (Some (''Sure! '' @ example_json @ '' Hope that helps.''))) example_report no_context
      = Parsed example_json_value"
proof -
  have whole: "JSON_parse (''Sure! '' @ example_json @ '' Hope that helps.'') = None"
    unfolding example_json_def by code_simp
  define mid where "mid = butlast (tl example_json)"
  have mid: "example_json = CHR ''{'' # mid @ [CHR ''}'']"
    unfolding mid_def example_json_def by simp
  have pre: "CHR ''{'' \<notin> set ''Sure! ''" and post: "CHR ''}'' \<notin> set '' Hope that helps.''"
    by simp_all
  from analyzeSymptoms_brace_slice [of "Some ''gsk_1''" JSON_parse
      "''Sure! '' @ example_json @ '' Hope that helps.''" example_json_value example_report no_context
      "''Sure! ''" mid "'' Hope that helps.''"]
    whole example_json_parsed pre post mid
  show ?thesis by simp
qed

text \<open>
  Claim C5 as stated fails for prose that itself holds a brace: the slice then starts in
  the prose, does not parse, and the fallback assessment is returned in place of the
  wrapped object.
\<close>

theorem analyzeSymptoms_brace_slice_counterexample:
  "JSON_parse example_json = Some example_json_value
   \<and> analyzeSymptoms JSON_parse (Some ''gsk_1'')
        (Resolves (Some (''Fields in {braces} are required: '' @ example_json @ '' Hope that helps.'')))
        example_report no_context
      = Built (parseFallbackResponse
          (''Fields in {braces} are required: '' @ example_json @ '' Hope that helps.''))
   \<and> analyzeSymptoms JSON_parse (Some ''gsk_1'')
        (Resolves (Some (''Fields in {braces} are required: '' @ example_json @ '' Hope that helps.'')))
        example_report no_context
      \<noteq> Parsed example_json_value"
proof -
  have "analyzeSymptoms JSON_parse (Some ''gsk_1'')
        (Resolves (Some (''Fields in {braces} are required: '' @ example_json @ '' Hope that helps.'')))
        example_report no_context
      = Built (parseFallbackResponse
          (''Fields in {braces} are required: '' @ example_json @ '' Hope that helps.''))"
    unfolding example_json_def by code_simp
  then show ?thesis using example_json_parsed by simp
qed

text \<open>
  Claim C6, as amended.  \<open>chatResponse\<close> returns a string for every outcome: the fixed
  apology (which is not empty) when the model call throws, the reply's content when there
  is one, and the empty string when the reply has no content.  The result is empty exactly
  when the call succeeded with a missing or empty content.
\<close>

theorem chatResponse_result:
  "chatResponse Throws msg chatHistory ctx = apology
   \<and> chatResponse (Resolves (Some answer)) msg chatHistory ctx = answer
   \<and> chatResponse (Resolves None) msg chatHistory ctx = []
   \<and> apology \<noteq> []
   \<and> (chatResponse outcome msg chatHistory ctx = [] \<longleftrightarrow>
        outcome = Resolves None \<or> outcome = Resolves (Some []))"
  by (cases outcome) (auto simp: chatResponse_def content_or_empty_def apology_def split: option.split)

text \<open>
  Claim C6 as stated fails: a successful call whose content is empty yields the empty
  string.
\<close>

theorem chatResponse_empty_counterexample:
  "chatResponse (Resolves (Some [])) ''I have a headache'' [] no_context = []"
  by (simp add: chatResponse_def content_or_empty_def)


subsection \<open>The rate limiter\<close>

lemma limiter_step:
  "userActionLimiter m w st (Some u) now =
     (let kept = filter (\<lambda>t. now - w < t) (stamps st u)
      in if int (length kept) \<ge> m then (TooMany429, st(u \<mapsto> kept))
         else (Next, st(u \<mapsto> kept @ [now])))"
proof -
  have "(\<lambda>t. now - t < w) = (\<lambda>t. now - w < t)" by (rule ext) linarith
  then show ?thesis by (simp add: userActionLimiter_def stamps_def Let_def)
qed

lemma serve_Cons_user:
  "fst (serve m w st ((Some u, t) # reqs)) =
     fst (userActionLimiter m w st (Some u) t) # fst (serve m w (snd (userActionLimiter m w st (Some u) t)) reqs)"
  by (simp add: split_beta Let_def)

lemma filter_window_mono:
  fixes w :: int
  assumes "t \<le> now"
  shows "filter (\<lambda>x. now - w < x) (filter (\<lambda>x. t - w < x) xs) = filter (\<lambda>x. now - w < x) xs"
proof -
  have "filter (\<lambda>x. now - w < x) (filter (\<lambda>x. t - w < x) xs) = filter (\<lambda>x. t - w < x \<and> now - w < x) xs"
    by (simp add: conj_commute)
  also have "\<dots> = filter (\<lambda>x. now - w < x) xs"
    by (rule filter_cong) (use assms in auto)
  finally show ?thesis .
qed

lemma allow_spec_window:
  "allow_spec m w adm (now # ts) =
     (if int (length (filter (\<lambda>t. now - w < t) adm)) \<ge> m
      then TooMany429 # allow_spec m w adm ts
      else Next # allow_spec m w (adm @ [now]) ts)"
proof -
  have "(\<lambda>t. now - t < w) = (\<lambda>t. now - w < t)" by (rule ext) linarith
  then show ?thesis by simp
qed

lemma serve_refines_spec:
  assumes "sorted ts"
    and "\<forall>now \<in> set ts. filter (\<lambda>x. now - w < x) (stamps st u) = filter (\<lambda>x. now - w < x) adm"
  shows "fst (serve m w st (map (\<lambda>t. (Some u, t)) ts)) = allow_spec m w adm ts"
  using assms
proof (induction ts arbitrary: st adm)
  case Nil
  then show ?case by simp
next
  case (Cons t ts)
  let ?kept = "filter (\<lambda>x. t - w < x) (stamps st u)"
  have kept: "?kept = filter (\<lambda>x. t - w < x) adm" using Cons.prems(2) by simp
  have later: "t \<le> now" if "now \<in> set ts" for now using Cons.prems(1) that by auto
  have srt: "sorted ts" using Cons.prems(1) by simp
  have pruned: "filter (\<lambda>x. now - w < x) ?kept = filter (\<lambda>x. now - w < x) adm"
    if "now \<in> set ts" for now
  proof -
    have "filter (\<lambda>x. now - w < x) ?kept = filter (\<lambda>x. now - w < x) (stamps st u)"
      using later [OF that] by (rule filter_window_mono)
    also have "\<dots> = filter (\<lambda>x. now - w < x) adm"
      using Cons.prems(2) that by simp
    finally show ?thesis .
  qed
  show ?case
  proof (cases "int (length ?kept) \<ge> m")
    case True
    have inv: "\<forall>now \<in> set ts. filter (\<lambda>x. now - w < x) (stamps (st(u \<mapsto> ?kept)) u)
                 = filter (\<lambda>x. now - w < x) adm"
      using pruned by (simp add: stamps_def del: filter_filter)
    have "fst (serve m w st (map (\<lambda>t. (Some u, t)) (t # ts)))
        = TooMany429 # fst (serve m w (st(u \<mapsto> ?kept)) (map (\<lambda>t. (Some u, t)) ts))"
      using True by (simp add: serve_Cons_user limiter_step Let_def del: serve.simps)
    also have "\<dots> = TooMany429 # allow_spec m w adm ts"
      by (simp only: Cons.IH [OF srt inv])
    also have "\<dots> = allow_spec m w adm (t # ts)"
      using True kept by (simp add: allow_spec_window del: allow_spec.simps)
    finally show ?thesis .
  next
    case False
    have inv: "\<forall>now \<in> set ts. filter (\<lambda>x. now - w < x) (stamps (st(u \<mapsto> ?kept @ [t])) u)
                 = filter (\<lambda>x. now - w < x) (adm @ [t])"
      using pruned by (simp add: stamps_def del: filter_filter)
    have "fst (serve m w st (map (\<lambda>t. (Some u, t)) (t # ts)))
        = Next # fst (serve m w (st(u \<mapsto> ?kept @ [t])) (map (\<lambda>t. (Some u, t)) ts))"
      using False by (simp add: serve_Cons_user limiter_step Let_def del: serve.simps)
    also have "\<dots> = Next # allow_spec m w (adm @ [t]) ts"
      by (simp only: Cons.IH [OF srt inv])
    also have "\<dots> = allow_spec m w adm (t # ts)"
      using False kept by (simp add: allow_spec_window del: allow_spec.simps)
    finally show ?thesis .
  qed
qed

lemma allow_spec_five:
  assumes "t1 \<le> t2" "t2 \<le> t3" "t3 \<le> t4" "t4 \<le> t5" "t5 \<le> t6" "t5 - t1 < 60000"
  shows "allow_spec 5 60000 [] [t1, t2, t3, t4, t5, t6] =
           [Next, Next, Next, Next, Next, if t6 - t1 < 60000 then TooMany429 else Next]"
proof -
  have five: "allow_spec 5 60000 [] [t1, t2, t3, t4, t5, t6] =
      Next # Next # Next # Next # Next # allow_spec 5 60000 [t1, t2, t3, t4, t5] [t6]"
    by simp
  have last: "allow_spec 5 60000 [t1, t2, t3, t4, t5] [t6] = [if t6 - t1 < 60000 then TooMany429 else Next]"
  proof (cases "t6 - t1 < 60000")
    case True
    with assms have "t6 - t1 < 60000" "t6 - t2 < 60000" "t6 - t3 < 60000" "t6 - t4 < 60000" "t6 - t5 < 60000"
      by linarith+
    then show ?thesis by simp
  next
    case False
    then show ?thesis by simp
  qed
  show ?thesis by (simp only: five last)
qed


text \<open>
  Claim C2, as amended.  For an authenticated user, a call at time \<open>now\<close> keeps the recorded
  timestamps \<open>t\<close> with \<open>now - windowMs < t\<close> (a timestamp exactly \<open>windowMs\<close> old is dropped
  with the older ones), answers 429 and appends nothing if at least \<open>maxActions\<close> remain, and
  otherwise appends \<open>now\<close> and calls \<open>next()\<close>.  Hence, for calls of one user at
  non-decreasing times to a limiter that holds nothing for the user, a call is admitted
  exactly when fewer than \<open>maxActions\<close> admitted calls lie less than \<open>windowMs\<close> before it;
  with the limits 5 and 60000, five calls within less than 60000 ms are admitted and a
  sixth is rejected as long as the first is less than 60000 ms old.
\<close>

theorem userActionLimiter_sliding_window:
  "userActionLimiter maxActions windowMs st (Some u) now =
     (let kept = filter (\<lambda>t. now - windowMs < t) (stamps st u)
      in if int (length kept) \<ge> maxActions then (TooMany429, st(u \<mapsto> kept))
         else (Next, st(u \<mapsto> kept @ [now])))
   \<and> (sorted ts \<and> stamps st u = [] \<longrightarrow>
        fst (serve maxActions windowMs st (map (\<lambda>t. (Some u, t)) ts))
          = allow_spec maxActions windowMs [] ts)
   \<and> (t1 \<le> t2 \<and> t2 \<le> t3 \<and> t3 \<le> t4 \<and> t4 \<le> t5 \<and> t5 \<le> t6 \<and> t5 - t1 < 60000 \<and> stamps st u = [] \<longrightarrow>
        fst (serve 5 60000 st (map (\<lambda>t. (Some u, t)) [t1, t2, t3, t4, t5, t6]))
          = [Next, Next, Next, Next, Next, if t6 - t1 < 60000 then TooMany429 else Next])"
proof -
  have refine: "fst (serve m w st (map (\<lambda>t. (Some u, t)) xs)) = allow_spec m w [] xs"
    if "sorted xs" "stamps st u = []" for m w xs
    using that by (intro serve_refines_spec) simp_all
  have five: "fst (serve 5 60000 st (map (\<lambda>t. (Some u, t)) [t1, t2, t3, t4, t5, t6]))
          = [Next, Next, Next, Next, Next, if t6 - t1 < 60000 then TooMany429 else Next]"
    if a: "t1 \<le> t2 \<and> t2 \<le> t3 \<and> t3 \<le> t4 \<and> t4 \<le> t5 \<and> t5 \<le> t6 \<and> t5 - t1 < 60000 \<and> stamps st u = []"
  proof -
    from a have "sorted [t1, t2, t3, t4, t5, t6]" by simp
    with a have "fst (serve 5 60000 st (map (\<lambda>t. (Some u, t)) [t1, t2, t3, t4, t5, t6]))
        = allow_spec 5 60000 [] [t1, t2, t3, t4, t5, t6]"
      by (intro refine) simp_all
    also have "\<dots> = [Next, Next, Next, Next, Next, if t6 - t1 < 60000 then TooMany429 else Next]"
      using a by (intro allow_spec_five) simp_all
    finally show ?thesis .
  qed
  show ?thesis
    using limiter_step [of maxActions windowMs st u now] refine [of ts maxActions windowMs] five
    by blast
qed

text \<open>
  The theorem at five calls one second apart: a sixth call 59999 ms after the first is
  rejected, one 60000 ms after the first is admitted.
\<close>

theorem userActionLimiter_sliding_window_witness:
  "sorted [0, 1000, 2000, 3000, 4000, 59999 :: int] \<and> stamps (Map.empty :: string userActions) ''u1'' = []
   \<and> fst (serve 5 60000 Map.empty (map (\<lambda>t. (Some ''u1'', t)) [0, 1000, 2000, 3000, 4000, 59999]))
       = [Next, Next, Next, Next, Next, TooMany429]
   \<and> fst (serve 5 60000 Map.empty (map (\<lambda>t. (Some ''u1'', t)) [0, 1000, 2000, 3000, 4000, 60000]))
       = [Next, Next, Next, Next, Next, Next]"
proof -
  have e: "stamps (Map.empty :: string userActions) ''u1'' = []" by (simp add: stamps_def)
  have a: "fst (serve 5 60000 Map.empty (map (\<lambda>t. (Some ''u1'', t)) [0, 1000, 2000, 3000, 4000, 59999]))
       = [Next, Next, Next, Next, Next, TooMany429]"
    using userActionLimiter_sliding_window [where st = "Map.empty :: string userActions" and u = "''u1''"
        and ?t1.0 = 0 and ?t2.0 = 1000 and ?t3.0 = 2000 and ?t4.0 = 3000 and ?t5.0 = 4000 and ?t6.0 = 59999,
        THEN conjunct2, THEN conjunct2] e
    by simp
  have b: "fst (serve 5 60000 Map.empty (map (\<lambda>t. (Some ''u1'', t)) [0, 1000, 2000, 3000, 4000, 60000]))
       = [Next, Next, Next, Next, Next, Next]"
    using userActionLimiter_sliding_window [where st = "Map.empty :: string userActions" and u = "''u1''"
        and ?t1.0 = 0 and ?t2.0 = 1000 and ?t3.0 = 2000 and ?t4.0 = 3000 and ?t5.0 = 4000 and ?t6.0 = 60000,
        THEN conjunct2, THEN conjunct2] e
    by simp
  from a b e show ?thesis by simp
qed

text \<open>
  Claim C2 as stated fails at the boundary.  The sixth call comes exactly 60000 ms after
  the first: no recorded timestamp is older than \<open>now - windowMs = 0\<close>, so by the claim five
  remain and the call is rejected; the code drops the timestamp \<open>0\<close> and admits the call.
\<close>

theorem sliding_window_boundary_counterexample:
  "fst (serve 5 60000 Map.empty (map (\<lambda>t. (Some ''u1'', t)) [0, 1000, 2000, 3000, 4000, 60000]))
     = [Next, Next, Next, Next, Next, Next]
   \<and> stated_verdicts 5 60000 [] [0, 1000, 2000, 3000, 4000, 60000]
     = [Next, Next, Next, Next, Next, TooMany429]"
  by (simp add: userActionLimiter_def allow_as_stated_def)

text \<open>
  Claim C10.  A request without an authenticated user is admitted and leaves the
  limiter's map as it was; so does any sequence of such requests, and in any sequence of
  requests the final map is the one the authenticated requests alone produce.
\<close>

theorem userActionLimiter_unauthenticated:
  "userActionLimiter maxActions windowMs st None now = (Next, st)
   \<and> serve maxActions windowMs st (map (\<lambda>t. (None, t)) ts) = (replicate (length ts) Next, st)
   \<and> snd (serve maxActions windowMs st reqs)
       = snd (serve maxActions windowMs st (filter (\<lambda>r. fst r \<noteq> None) reqs))"
proof -
  have one: "userActionLimiter maxActions windowMs st None now = (Next, st)" for st now
    by (simp add: userActionLimiter_def)
  have many: "serve maxActions windowMs st (map (\<lambda>t. (None, t)) ts) = (replicate (length ts) Next, st)"
    by (induction ts) (simp_all add: one)
  have skip: "snd (serve maxActions windowMs st reqs)
       = snd (serve maxActions windowMs st (filter (\<lambda>r. fst r \<noteq> None) reqs))"
  proof (induction reqs arbitrary: st)
    case Nil
    then show ?case by simp
  next
    case (Cons r reqs)
    obtain user t where r: "r = (user, t)" by (cases r)
    show ?case
    proof (cases user)
      case None
      with Cons r show ?thesis by (simp add: one split_beta)
    next
      case (Some uid)
      with Cons r show ?thesis by (simp add: split_beta Let_def)
    qed
  qed
  from one many skip show ?thesis by blast
qed


subsection \<open>The chat session\<close>

lemma find_rev_last_filter:
  "find P (rev xs) = (if filter P xs = [] then None else Some (last (filter P xs)))"
  by (induction xs rule: rev_induct) auto

lemma urgentKeywords_lower: "k \<in> set urgentKeywords \<Longrightarrow> toLowerCase k = k"
  by (auto simp: urgentKeywords_def toLowerCase_def toLowerCase_char_def)

lemma hasUrgentKeywords_iff:
  "list_ex (\<lambda>keyword. includes_str (toLowerCase text) keyword) urgentKeywords \<longleftrightarrow>
   mentions urgentKeywords text"
  unfolding mentions_def
  by (metis (mono_tags, lifting) list_ex_iff includes_lower_occurs urgentKeywords_lower)

lemma updateContext_scan:
  "updateContext c =
     (case recent_user_message (messages c) of
        None \<Rightarrow> c
      | Some m \<Rightarrow>
          if mentions urgentKeywords (content m)
          then c\<lparr> context := (context c)\<lparr> urgencyLevel := High, emotionalState := Urgent \<rparr> \<rparr>
          else c)"
proof (cases "messages c = []")
  case True
  then show ?thesis
    by (simp add: updateContext_def recent_user_message_def slice_last_def)
next
  case False
  then show ?thesis
    by (simp add: updateContext_def recent_user_message_def find_rev_last_filter Let_def
        hasUrgentKeywords_iff)
qed

lemma updateContext_keeps:
  "messages (updateContext c) = messages c"
  "aiInsights (updateContext c) = aiInsights c"
  "status (updateContext c) = status c"
  by (simp_all add: updateContext_scan split: option.split)

text \<open>
  Claim C7, as amended.  \<open>addMessage\<close> appends the message and then scans the most recent
  user message among the last five messages: if it mentions one of "emergency", "urgent",
  "immediate", "severe", "critical", "pain", "help", the urgency level becomes high and the
  emotional state urgent; otherwise, and when there is no such message, the context is
  unchanged.  The scan never sets a medium level.
\<close>

theorem addMessage_urgency_scan:
  "messages (addMessage_doc r text c) = messages c @ [\<lparr> role = r, content = text \<rparr>]
   \<and> (case recent_user_message (messages c @ [\<lparr> role = r, content = text \<rparr>]) of
        Some m \<Rightarrow>
          if mentions urgentKeywords (content m)
          then urgencyLevel (context (addMessage_doc r text c)) = High
             \<and> emotionalState (context (addMessage_doc r text c)) = Urgent
          else context (addMessage_doc r text c) = context c
      | None \<Rightarrow> context (addMessage_doc r text c) = context c)"
  by (simp add: addMessage_doc_def updateContext_keeps updateContext_scan split: option.split)

text \<open>
  The theorem at a new session: "Please HELP me" raises the urgency, "My arm hurts" leaves
  the context as it was.
\<close>

theorem addMessage_urgency_scan_witness:
  "recent_user_message (messages new_chat @ [\<lparr> role = User, content = ''Please HELP me'' \<rparr>])
      = Some \<lparr> role = User, content = ''Please HELP me'' \<rparr>
   \<and> mentions urgentKeywords ''Please HELP me''
   \<and> urgencyLevel (context (addMessage_doc User ''Please HELP me'' new_chat)) = High
   \<and> emotionalState (context (addMessage_doc User ''Please HELP me'' new_chat)) = Urgent
   \<and> \<not> mentions urgentKeywords ''My arm hurts''
   \<and> context (addMessage_doc User ''My arm hurts'' new_chat) = context new_chat"
proof -
  have r1: "recent_user_message (messages new_chat @ [\<lparr> role = User, content = ''Please HELP me'' \<rparr>])
      = Some \<lparr> role = User, content = ''Please HELP me'' \<rparr>"
    by (simp add: recent_user_message_def new_chat_def slice_last_def)
  have r2: "recent_user_message (messages new_chat @ [\<lparr> role = User, content = ''My arm hurts'' \<rparr>])
      = Some \<lparr> role = User, content = ''My arm hurts'' \<rparr>"
    by (simp add: recent_user_message_def new_chat_def slice_last_def)
  have m1: "mentions urgentKeywords ''Please HELP me''"
    unfolding mentions_def by code_simp
  have m2: "\<not> mentions urgentKeywords ''My arm hurts''"
    unfolding mentions_def by code_simp
  from addMessage_urgency_scan [of User "''Please HELP me''" new_chat]
    addMessage_urgency_scan [of User "''My arm hurts''" new_chat] r1 r2 m1 m2
  show ?thesis by simp
qed

text \<open>
  Claim C7 as stated fails: a user message with the pain keyword "pain" and no emergency
  keyword sets the urgency level to high and the emotional state to urgent, not the level to
  medium.
\<close>

theorem addMessage_pain_counterexample:
  "\<not> list_ex (\<lambda>word. includes_str (toLowerCase ''I have pain in my knee'') word) keywords_emergency
   \<and> list_ex (\<lambda>word. includes_str (toLowerCase ''I have pain in my knee'') word) keywords_pain
   \<and> urgencyLevel (context new_chat) = Low
   \<and> urgencyLevel (context (addMessage_doc User ''I have pain in my knee'' new_chat)) = High
   \<and> emotionalState (context (addMessage_doc User ''I have pain in my knee'' new_chat)) = Urgent"
  by code_simp


lemma addMessage_doc_high:
  "urgencyLevel (context c) = High \<Longrightarrow> urgencyLevel (context (addMessage_doc r text c)) = High"
  by (simp add: addMessage_doc_def updateContext_scan split: option.split)

lemma addMessages_high:
  "urgencyLevel (context c) = High \<Longrightarrow> urgencyLevel (context (addMessages c ms)) = High"
proof (induction ms arbitrary: c)
  case Nil
  then show ?case by simp
next
  case (Cons m ms)
  obtain r body where m: "m = (r, body)" by (cases m)
  from Cons.prems have "urgencyLevel (context (addMessage_doc r body c)) = High"
    by (rule addMessage_doc_high)
  then show ?case unfolding m by (simp add: Cons.IH)
qed

lemma recent_user_message_new:
  "recent_user_message (msgs @ [\<lparr> role = User, content = text \<rparr>]) = Some \<lparr> role = User, content = text \<rparr>"
  by (simp add: recent_user_message_def slice_last_def)

lemma addMessage_doc_raises:
  assumes "mentions urgentKeywords text"
  shows "urgencyLevel (context (addMessage_doc User text c)) = High"
  using assms by (simp add: addMessage_doc_def updateContext_scan recent_user_message_new)

text \<open>
  Claim C8.  An urgency level of high survives every sequence of \<open>addMessage\<close> calls; a
  user message that mentions an urgent keyword, such as one containing "severe chest
  pain", sets the level to high, and it is high after every sequence of later messages.
\<close>

theorem urgency_never_downgraded:
  "(urgencyLevel (context c) = High \<longrightarrow> urgencyLevel (context (addMessages c ms)) = High)
   \<and> (mentions urgentKeywords text \<longrightarrow>
        urgencyLevel (context (addMessage_doc User text c)) = High
        \<and> urgencyLevel (context (addMessages (addMessage_doc User text c) ms)) = High)
   \<and> (occurs_ignoring_case ''severe chest pain'' text \<longrightarrow>
        urgencyLevel (context (addMessages (addMessage_doc User text c) ms)) = High)"
proof -
  have "mentions urgentKeywords text" if "occurs_ignoring_case ''severe chest pain'' text"
  proof -
    have "occurs_ignoring_case ''severe'' text"
      using occurs_longer [of "''severe''" "'' chest pain''" "text"] that by simp
    then show ?thesis by (auto simp: mentions_def urgentKeywords_def)
  qed
  then show ?thesis
    using addMessages_high addMessage_doc_raises by blast
qed

text \<open>
  The theorem at a new session: after "I have Severe chest pain since noon" and three
  further messages without a keyword, the level is high.
\<close>

theorem urgency_never_downgraded_witness:
  "urgencyLevel (context new_chat) = Low
   \<and> occurs_ignoring_case ''severe chest pain'' ''I have Severe chest pain since noon''
   \<and> \<not> mentions urgentKeywords ''thank you''
   \<and> urgencyLevel (context (addMessages new_chat
        [(User, ''I have Severe chest pain since noon''),
         (Assistant, ''Please seek care.''),
         (User, ''thank you''),
         (Assistant, ''Take care.'')])) = High"
proof -
  have o: "occurs_ignoring_case ''severe chest pain'' ''I have Severe chest pain since noon''"
    by code_simp
  have n: "\<not> mentions urgentKeywords ''thank you''"
    unfolding mentions_def by code_simp
  from urgency_never_downgraded [of new_chat
      "[(Assistant, ''Please seek care.''), (User, ''thank you''), (Assistant, ''Take care.'')]"
      "''I have Severe chest pain since noon''"] o
  have "urgencyLevel (context (addMessages (addMessage_doc User ''I have Severe chest pain since noon'' new_chat)
          [(Assistant, ''Please seek care.''), (User, ''thank you''), (Assistant, ''Take care.'')])) = High"
    by blast
  then show ?thesis using o n by (simp add: new_chat_def)
qed

lemma asksWhoMade_nonempty: "asksWhoMade (toLowerCase text) \<Longrightarrow> text \<noteq> []"
  by (auto simp: asksWhoMade_def toLowerCase_def)

lemma save_ok_iff: "save c = Inr c \<longleftrightarrow> (\<forall>m \<in> set (messages c). content m \<noteq> [])"
  by (auto simp: save_def list_ex_iff)

lemma addMessage_ok:
  assumes "save c = Inr c" and "text \<noteq> []"
  shows "addMessage r text c = Inr (addMessage_doc r text c)"
    and "save (addMessage_doc r text c) = Inr (addMessage_doc r text c)"
proof -
  have m: "messages (addMessage_doc r text c) = messages c @ [\<lparr> role = r, content = text \<rparr>]"
    by (simp add: addMessage_doc_def updateContext_keeps)
  from assms show 2: "save (addMessage_doc r text c) = Inr (addMessage_doc r text c)"
    by (simp add: save_ok_iff m)
  then show "addMessage r text c = Inr (addMessage_doc r text c)"
    by (simp add: addMessage_def)
qed

lemma keywords_lower:
  "k \<in> set keywords_emergency \<Longrightarrow> toLowerCase k = k"
  "k \<in> set keywords_pain \<Longrightarrow> toLowerCase k = k"
  by (auto simp: keywords_emergency_def keywords_pain_def toLowerCase_def toLowerCase_char_def)

lemma keywords_mentions:
  "list_ex (\<lambda>word. includes_str (toLowerCase text) word) keywords_emergency \<longleftrightarrow> mentions keywords_emergency text"
  "list_ex (\<lambda>word. includes_str (toLowerCase text) word) keywords_pain \<longleftrightarrow> mentions keywords_pain text"
  unfolding mentions_def
  by (metis (mono_tags, lifting) list_ex_iff includes_lower_occurs keywords_lower(1))
     (metis (mono_tags, lifting) list_ex_iff includes_lower_occurs keywords_lower(2))

lemma updateChatInsights_after_exchange:
  assumes "messages c = old @ [\<lparr> role = User, content = text \<rparr>, \<lparr> role = Assistant, content = answer \<rparr>]"
  shows "updateChatInsights c =
           c\<lparr> aiInsights := (aiInsights c)\<lparr> primaryConcern := Some (fst (insight_of text)),
                                            riskAssessment_level := snd (insight_of text) \<rparr> \<rparr>"
  using assms
  by (simp add: updateChatInsights_def Let_def keywords_mentions insight_of_def)


text \<open>
  Claim C9.  When the validators pass, the session is found and is a valid document, and
  the lower-cased message contains "who made", "who built" or "who created", or
  "developer" together with "site", "app", "application" or "website", the handler
  replies with the fixed attribution string, makes no call to the model provider
  (whatever the provider would have answered), and stores the session with both messages
  appended and the insights updated from the user's message.
\<close>

theorem postMessage_maker_question:
  assumes valid: "errorsEmpty"
    and found: "findOne session = Some chat0"
    and doc: "save chat0 = Inr chat0"
    and asks: "asksWhoMade (toLowerCase text)"
  shows "postMessage outcome userContext session errorsEmpty text =
           \<lparr> reply = Sent makerAnswer
               (getSummary (updateChatInsights
                  (addMessage_doc Assistant makerAnswer (addMessage_doc User text chat0)))),
             stored = Some (updateChatInsights
                  (addMessage_doc Assistant makerAnswer (addMessage_doc User text chat0))),
             providerCalls = 0 \<rparr>
       \<and> aiInsights (updateChatInsights
            (addMessage_doc Assistant makerAnswer (addMessage_doc User text chat0)))
          = (aiInsights chat0)\<lparr> primaryConcern := Some (fst (insight_of text)),
                                   riskAssessment_level := snd (insight_of text) \<rparr>"
proof -
  let ?c1 = "addMessage_doc User text chat0"
  let ?c2 = "addMessage_doc Assistant makerAnswer ?c1"
  from asks have ne: "text \<noteq> []" by (rule asksWhoMade_nonempty)
  have a1: "addMessage User text chat0 = Inr ?c1" and s1: "save ?c1 = Inr ?c1"
    using addMessage_ok [OF doc ne] by simp_all
  have mk: "makerAnswer \<noteq> []" by (simp add: makerAnswer_def)
  have a2: "addMessage Assistant makerAnswer ?c1 = Inr ?c2"
    using addMessage_ok [OF s1 mk] by simp
  have msgs: "messages ?c2 = messages chat0 @
      [\<lparr> role = User, content = text \<rparr>, \<lparr> role = Assistant, content = makerAnswer \<rparr>]"
    by (simp add: addMessage_doc_def updateContext_keeps)
  have ins: "aiInsights ?c2 = aiInsights chat0"
    by (simp add: addMessage_doc_def updateContext_keeps)
  note upd = updateChatInsights_after_exchange [OF msgs]
  have "postMessage outcome userContext session errorsEmpty text =
           \<lparr> reply = Sent makerAnswer (getSummary (updateChatInsights ?c2)),
             stored = Some (updateChatInsights ?c2), providerCalls = 0 \<rparr>"
    using valid found asks by (simp add: postMessage_def a1 a2 Let_def)
  moreover have "aiInsights (updateChatInsights ?c2)
      = (aiInsights chat0)\<lparr> primaryConcern := Some (fst (insight_of text)),
                               riskAssessment_level := snd (insight_of text) \<rparr>"
    by (simp add: upd ins)
  ultimately show ?thesis by simp
qed

text \<open>
  The theorem at the message "Who made this app?" in a new session.
\<close>

theorem postMessage_maker_question_witness:
  "findOne (Some new_chat) = Some new_chat \<and> save new_chat = Inr new_chat
   \<and> asksWhoMade (toLowerCase ''Who made this app?'')
   \<and> reply (postMessage Throws no_context (Some new_chat) True ''Who made this app?'')
       = Sent makerAnswer
           \<lparr> summary_status = Active, messageCount = 2, summary_urgencyLevel = Low,
             lastMessage = Some \<lparr> role = Assistant, content = makerAnswer \<rparr> \<rparr>
   \<and> providerCalls (postMessage Throws no_context (Some new_chat) True ''Who made this app?'') = 0
   \<and> map_option aiInsights (stored (postMessage Throws no_context (Some new_chat) True ''Who made this app?''))
       = Some \<lparr> primaryConcern = Some ''general'', riskAssessment_level = Low \<rparr>"
proof -
  have f: "findOne (Some new_chat) = Some new_chat" by (simp add: findOne_def new_chat_def)
  have s: "save new_chat = Inr new_chat" by (simp add: save_def new_chat_def)
  have a: "asksWhoMade (toLowerCase ''Who made this app?'')" by code_simp
  have i: "insight_of ''Who made this app?'' = (''general'', Low)"
    unfolding insight_of_def mentions_def by code_simp
  have g: "getSummary (updateChatInsights
                  (addMessage_doc Assistant makerAnswer (addMessage_doc User ''Who made this app?'' new_chat)))
      = \<lparr> summary_status = Active, messageCount = 2, summary_urgencyLevel = Low,
             lastMessage = Some \<lparr> role = Assistant, content = makerAnswer \<rparr> \<rparr>"
    by code_simp
  from postMessage_maker_question [OF TrueI f s a, of Throws no_context] i g f s a
  show ?thesis by (simp add: new_chat_def)
qed


end
